theory Spec2Isabelle
  imports Complex_Main "HOL-Library.Multiset"
begin

section \<open>JavaScript values used by the hooks\<close>

text \<open>
  A JavaScript string is a sequence of UTF-16 code units. A code unit is modelled as a
  natural number (JavaScript's are those below 65536; nothing below depends on the
  bound), so that every string the hooks can receive has a model. \<open>ascii\<close> writes a
  string of ASCII characters as code units.
\<close>

type_synonym jsstring = "nat list"

definition ascii :: "string \<Rightarrow> jsstring" where
  "ascii s = map of_char s"

text \<open>
  An optional string (\<open>parentId?: string\<close>, \<open>string | null\<close>) is a \<open>jsstring option\<close>,
  \<open>None\<close> for \<open>undefined\<close> or \<open>null\<close>. The source tests such values by truthiness:
  \<open>undefined\<close>, \<open>null\<close> and the empty string are falsy.
\<close>

fun truthy :: "jsstring option \<Rightarrow> bool" where
  "truthy None = False"
| "truthy (Some s) = (s \<noteq> [])"

text \<open>\<open>v || undefined\<close>\<close>

fun orUndefined :: "jsstring option \<Rightarrow> jsstring option" where
  "orUndefined None = None"
| "orUndefined (Some s) = (if s = [] then None else Some s)"

text \<open>\<open>v || d\<close> for a string \<open>d\<close>\<close>

fun orElse :: "jsstring option \<Rightarrow> jsstring \<Rightarrow> jsstring" where
  "orElse None d = d"
| "orElse (Some s) d = (if s = [] then d else s)"

subsection \<open>Array.prototype.splice, as the reorder functions call it\<close>

text \<open>
  \<open>splice(start, ...)\<close> on an array of length \<open>len\<close> starts at \<open>len + start\<close> (at least 0)
  for a negative \<open>start\<close> and at \<open>min start len\<close> otherwise. Indices are integers here
  (the source's \<open>number\<close> arguments are list positions).
\<close>

definition actualStart :: "int \<Rightarrow> nat \<Rightarrow> nat" where
  "actualStart start len =
     (if start < 0 then nat (max (int len + start) 0) else min (nat start) len)"

text \<open>
  \<open>const [moved] = xs.splice(start, 1)\<close>: the element removed (\<open>None\<close> for \<open>undefined\<close>,
  when nothing is removed) and the array that is left.
\<close>

definition splice_delete1 :: "int \<Rightarrow> 'a list \<Rightarrow> 'a option \<times> 'a list" where
  "splice_delete1 start xs =
     (let k = actualStart start (length xs)
      in if k < length xs then (Some (xs ! k), take k xs @ drop (Suc k) xs)
         else (None, xs))"

text \<open>\<open>xs.splice(start, 0, x)\<close>\<close>

definition splice_insert :: "int \<Rightarrow> 'a \<Rightarrow> 'a list \<Rightarrow> 'a list" where
  "splice_insert start x xs =
     (let k = actualStart start (length xs) in take k xs @ [x] @ drop k xs)"

text \<open>
  The two splices of the reorder functions. When the first one removes nothing, the
  source inserts \<open>undefined\<close> and saves an array with an entry that is no element of the
  data model: that outcome is the error \<open>UndefinedEntry\<close>.
\<close>

datatype error = UndefinedEntry

definition moveElement :: "int \<Rightarrow> int \<Rightarrow> 'a list \<Rightarrow> error + 'a list" where
  "moveElement fromIndex toIndex xs =
     (case splice_delete1 fromIndex xs of
        (None, _) \<Rightarrow> Inl UndefinedEntry
      | (Some moved, rest) \<Rightarrow> Inr (splice_insert toIndex moved rest))"

text \<open>\<open>xs.map((x, idx) => f(x, idx))\<close>\<close>

definition mapIndexed :: "(nat \<Rightarrow> 'a \<Rightarrow> 'b) \<Rightarrow> 'a list \<Rightarrow> 'b list" where
  "mapIndexed f xs = map (\<lambda>(idx, x). f idx x) (enumerate 0 xs)"

section \<open>Dashboard tabs and groups (useDashboardTabs)\<close>

text \<open>
  The types of the source, field by field; a field \<open>f\<close> of \<open>TabGroup\<close>, \<open>DashboardTab\<close>
  and \<open>TabInput\<close> is \<open>g_f\<close>, \<open>t_f\<close> and \<open>i_f\<close>. An optional field is an \<open>option\<close>.
  The \<open>order\<close> of a group is a number; the model has the numbers with an integer
  value, which are the ones the hook assigns (an index, or a maximum and one), as the
  integer they are.
\<close>

record TabGroup =
  g_id :: jsstring
  g_name :: jsstring
  g_order :: int
  g_parentId :: "jsstring option"

record DashboardTab =
  t_id :: jsstring
  t_name :: jsstring
  t_createdAt :: jsstring
  t_isPublic :: "bool option"
  t_groupId :: "jsstring option"
  t_link :: "jsstring option"
  t_icon :: "jsstring option"

text \<open>The hook's state: \<open>tabs\<close> and \<open>groups\<close>.\<close>

record DashboardTabsState =
  tabs :: "DashboardTab list"
  groups :: "TabGroup list"

text \<open>
  \<open>save(nextTabs, nextGroups)\<close> sets both state variables (every call of the source
  passes a groups array, which is truthy) and posts them; the request is not modelled.
\<close>

definition save :: "DashboardTab list \<Rightarrow> TabGroup list \<Rightarrow> DashboardTabsState" where
  "save nextTabs nextGroups = \<lparr>tabs = nextTabs, groups = nextGroups\<rparr>"

definition groupTabs :: "jsstring option \<Rightarrow> DashboardTab list \<Rightarrow> DashboardTab list" where
  "groupTabs groupId ts =
     (if truthy groupId then filter (\<lambda>t. t_groupId t = groupId) ts
      else filter (\<lambda>t. \<not> truthy (t_groupId t)) ts)"

definition otherTabs :: "jsstring option \<Rightarrow> DashboardTab list \<Rightarrow> DashboardTab list" where
  "otherTabs groupId ts =
     (if truthy groupId then filter (\<lambda>t. t_groupId t \<noteq> groupId) ts
      else filter (\<lambda>t. truthy (t_groupId t)) ts)"

definition reorderTabs ::
  "int \<Rightarrow> int \<Rightarrow> jsstring option \<Rightarrow> DashboardTabsState \<Rightarrow> error + DashboardTabsState" where
  "reorderTabs fromIndex toIndex groupId s =
     (case moveElement fromIndex toIndex (groupTabs groupId (tabs s)) of
        Inl e \<Rightarrow> Inl e
      | Inr reorderedGroupTabs \<Rightarrow>
          Inr (save (otherTabs groupId (tabs s) @ reorderedGroupTabs) (groups s)))"

definition removeGroup :: "jsstring \<Rightarrow> DashboardTabsState \<Rightarrow> DashboardTabsState" where
  "removeGroup groupId s =
     (let newTabs = map (\<lambda>t. if t_groupId t = Some groupId then t\<lparr>t_groupId := None\<rparr> else t)
                      (tabs s);
          groupToRemove = find (\<lambda>g. g_id g = groupId) (groups s);
          parentId = (case groupToRemove of None \<Rightarrow> None | Some g \<Rightarrow> g_parentId g);
          newGroups = map (\<lambda>g. if g_parentId g = Some groupId
                                 then g\<lparr>g_parentId := orUndefined parentId\<rparr> else g)
                        (filter (\<lambda>g. g_id g \<noteq> groupId) (groups s))
      in save newTabs newGroups)"

definition sameLevel :: "jsstring option \<Rightarrow> TabGroup \<Rightarrow> bool" where
  "sameLevel parentId g = (orUndefined (g_parentId g) = orUndefined parentId)"

definition reorderGroups ::
  "int \<Rightarrow> int \<Rightarrow> jsstring option \<Rightarrow> DashboardTabsState \<Rightarrow> error + DashboardTabsState" where
  "reorderGroups fromIndex toIndex parentId s =
     (let sameLevelGroups = filter (sameLevel parentId) (groups s);
          otherGroups = filter (\<lambda>g. \<not> sameLevel parentId g) (groups s)
      in case moveElement fromIndex toIndex sameLevelGroups of
           Inl e \<Rightarrow> Inl e
         | Inr reorderedSameLevel \<Rightarrow>
             (let reorderedWithOrder =
                    mapIndexed (\<lambda>idx g. g\<lparr>g_order := int idx\<rparr>) reorderedSameLevel
              in Inr (save (tabs s) (otherGroups @ reorderedWithOrder))))"

text \<open>
  Two limits of the engine that runs the hook. \<open>stackDepth\<close> is the number of nested
  calls of \<open>isDescendant\<close> the call stack has room for, \<open>maxArguments\<close> the number of
  arguments a call can take; passing either limit throws a \<open>RangeError\<close>.
\<close>

record Engine =
  stackDepth :: nat
  maxArguments :: nat

text \<open>
  \<open>isDescendant\<close> recurses along \<open>parentId\<close> links; its first argument is the number of
  calls the stack still has room for. \<open>None\<close> is the \<open>RangeError\<close> of a call the stack has
  no room for: on a cycle that avoids \<open>ancestorId\<close>, and on a chain of parents longer
  than the stack.
\<close>

fun isDescendant :: "nat \<Rightarrow> TabGroup list \<Rightarrow> jsstring \<Rightarrow> jsstring \<Rightarrow> bool option" where
  "isDescendant 0 gs checkId ancestorId = None"
| "isDescendant (Suc room) gs checkId ancestorId =
     (case find (\<lambda>g. g_id g = checkId) gs of
        None \<Rightarrow> Some False
      | Some checkGroup \<Rightarrow>
          (case g_parentId checkGroup of
             None \<Rightarrow> Some False
           | Some p \<Rightarrow>
               if p = [] then Some False
               else if p = ancestorId then Some True
               else isDescendant room gs p ancestorId))"

text \<open>\<open>targetParentId && isDescendant(targetParentId, groupId)\<close>\<close>

definition targetIsDescendant ::
  "nat \<Rightarrow> TabGroup list \<Rightarrow> jsstring option \<Rightarrow> jsstring \<Rightarrow> bool option" where
  "targetIsDescendant room gs targetParentId groupId =
     (case targetParentId of
        None \<Rightarrow> Some False
      | Some t \<Rightarrow> if t = [] then Some False else isDescendant room gs t groupId)"

text \<open>
  \<open>sameLevelGroups.length > 0 ? Math.max(...sameLevelGroups.map(g => g.order)) : -1\<close>.
  The spread passes every order as an argument of its own: \<open>None\<close> is the \<open>RangeError\<close>
  of a call with more arguments than the engine takes.
\<close>

definition maxOrderAt :: "Engine \<Rightarrow> jsstring option \<Rightarrow> jsstring \<Rightarrow> TabGroup list \<Rightarrow> int option" where
  "maxOrderAt engine targetParentId groupId newGroups =
     (let sameLevelGroups =
            filter (\<lambda>g. sameLevel targetParentId g \<and> g_id g \<noteq> groupId) newGroups
      in case map g_order sameLevelGroups of
           [] \<Rightarrow> Some (-1)
         | x # xs \<Rightarrow>
             if maxArguments engine < length (x # xs) then None else Some (fold max xs x))"

text \<open>
  \<open>m + 1\<close> for a number \<open>m\<close> with an integer value. The sum of two doubles is the exact
  sum rounded to the nearest double, a tie going to the double with the even
  significand. Up to \<open>2^53\<close> in magnitude every integer is a double and the sum is
  exact. From \<open>2^53\<close> to \<open>2^54\<close> the doubles are the even integers, \<open>m + 1\<close> lies half way
  between \<open>m\<close> and \<open>m + 2\<close>, and the one whose half is even is the sum. From \<open>2^54\<close> on
  the nearest double of \<open>m + 1\<close> is \<open>m\<close>.
\<close>

definition jsAdd1 :: "int \<Rightarrow> int" where
  "jsAdd1 m =
     (if \<bar>m + 1\<bar> \<le> 2 ^ 53 then m + 1
      else if \<bar>m\<bar> < 2 ^ 54 then (if even (m div 2) then m else m + 2)
      else m)"

text \<open>
  \<open>moveGroupToParent\<close>: \<open>Some\<close> of the state it leaves (the old one on each early
  \<open>return\<close>), \<open>None\<close> when a \<open>RangeError\<close> ends the call; nothing is saved then, and
  the state stays as it was.
\<close>

definition moveGroupToParent ::
  "Engine \<Rightarrow> jsstring \<Rightarrow> jsstring option \<Rightarrow> DashboardTabsState \<Rightarrow> DashboardTabsState option" where
  "moveGroupToParent engine groupId targetParentId s =
     (case find (\<lambda>g. g_id g = groupId) (groups s) of
        None \<Rightarrow> Some s
      | Some grp \<Rightarrow>
          if targetParentId = Some groupId then Some s
          else (case targetIsDescendant (stackDepth engine) (groups s) targetParentId groupId of
                  None \<Rightarrow> None
                | Some True \<Rightarrow> Some s
                | Some False \<Rightarrow>
                    (let newGroups =
                           map (\<lambda>g. if g_id g = groupId
                                     then g\<lparr>g_parentId := orUndefined targetParentId\<rparr> else g)
                             (groups s)
                     in case maxOrderAt engine targetParentId groupId newGroups of
                          None \<Rightarrow> None
                        | Some maxOrder \<Rightarrow>
                            (let updatedGroups =
                                   map (\<lambda>g. if g_id g = groupId
                                             then g\<lparr>g_order := jsAdd1 maxOrder\<rparr> else g)
                                     newGroups
                             in Some (save (tabs s) updatedGroups)))))"

subsection \<open>The parent relation of a groups list\<close>



text \<open>
  The parent of the group named \<open>i\<close> as \<open>isDescendant\<close> finds it: the truthy \<open>parentId\<close>
  of the first group with that id (\<open>groups.find\<close>), \<open>None\<close> when there is no such group
  or it is at root level.
\<close>

definition parentOf :: "TabGroup list \<Rightarrow> jsstring \<Rightarrow> jsstring option" where
  "parentOf gs i =
     (case find (\<lambda>g. g_id g = i) gs of None \<Rightarrow> None | Some g \<Rightarrow> orUndefined (g_parentId g))"



text \<open>\<open>a\<close> is on the chain of the links \<open>parentOf\<close> that starts at \<open>c\<close>.\<close>

inductive descendant :: "TabGroup list \<Rightarrow> jsstring \<Rightarrow> jsstring \<Rightarrow> bool" for gs where
  child: "parentOf gs c = Some a \<Longrightarrow> descendant gs c a"
| below: "parentOf gs c = Some p \<Longrightarrow> descendant gs p a \<Longrightarrow> descendant gs c a"

code_pred descendant .


section \<open>Custom inputs of a tab (useTabInputs)\<close>

datatype TabInputType = Text | Number | Date

record TabInputOption =
  o_label :: jsstring
  o_value :: jsstring

record TabInput =
  i_id :: jsstring
  i_tabId :: jsstring
  i_key :: jsstring
  i_label :: jsstring
  i_type :: TabInputType
  i_value :: "jsstring option"
  i_defaultValue :: "jsstring option"
  i_placeholder :: "jsstring option"
  i_description :: "jsstring option"
  i_options :: "TabInputOption list option"
  i_order :: "int option"
  i_createdAt :: "jsstring option"
  i_updatedAt :: "jsstring option"

text \<open>
  \<open>Partial<Omit<TabInput, "id" | "tabId">>\<close>: every property may be absent (\<open>None\<close>).
  A property that is optional in \<open>TabInput\<close> may also be present with the value
  \<open>undefined\<close> (\<open>Some None\<close>), which an object spread copies.
\<close>

record TabInputPartial =
  p_key :: "jsstring option"
  p_label :: "jsstring option"
  p_type :: "TabInputType option"
  p_value :: "jsstring option option"
  p_defaultValue :: "jsstring option option"
  p_placeholder :: "jsstring option option"
  p_description :: "jsstring option option"
  p_options :: "TabInputOption list option option"
  p_order :: "int option option"
  p_createdAt :: "jsstring option option"
  p_updatedAt :: "jsstring option option"

text \<open>\<open>payload?.prop\<close>: reading a property that is absent or \<open>undefined\<close> gives \<open>undefined\<close>.\<close>

definition readProp :: "(TabInputPartial \<Rightarrow> 'a option) \<Rightarrow> TabInputPartial option \<Rightarrow> 'a option" where
  "readProp prop payload = (case payload of None \<Rightarrow> None | Some p \<Rightarrow> prop p)"

definition readOptProp ::
  "(TabInputPartial \<Rightarrow> 'a option option) \<Rightarrow> TabInputPartial option \<Rightarrow> 'a option" where
  "readOptProp prop payload =
     (case payload of None \<Rightarrow> None | Some p \<Rightarrow> (case prop p of None \<Rightarrow> None | Some v \<Rightarrow> v))"

text \<open>One property of \<open>{ ...input, ...updates }\<close>: a property present in \<open>updates\<close> wins.\<close>

definition spread :: "'a option \<Rightarrow> 'a \<Rightarrow> 'a" where
  "spread update old = (case update of None \<Rightarrow> old | Some v \<Rightarrow> v)"

subsection \<open>sanitizeKey\<close>

text \<open>
  \<open>toLowerCase\<close>, code unit by code unit: the ASCII capitals, and the two other code
  units whose lower case contains an ASCII letter (U+0130 gives \<open>i\<close> and U+0307, the
  Kelvin sign U+212A gives \<open>k\<close>). Every other code unit is left as it is. JavaScript
  changes some of them, capital letters outside ASCII, to code units that are outside
  ASCII and no white space either; \<open>sanitizeKey\<close> deletes those as it deletes the
  capital letter itself, so it gives the same key.
\<close>

definition toLowerCaseUnit :: "nat \<Rightarrow> jsstring" where
  "toLowerCaseUnit c =
     (if 65 \<le> c \<and> c \<le> 90 then [c + 32]
      else if c = 304 then [105, 775]
      else if c = 8490 then [107]
      else [c])"

definition toLowerCase :: "jsstring \<Rightarrow> jsstring" where
  "toLowerCase s = concat (map toLowerCaseUnit s)"

text \<open>The class \<open>\s\<close> of a regular expression: white space and line terminators.\<close>

definition isWhiteSpace :: "nat \<Rightarrow> bool" where
  "isWhiteSpace c =
     (c \<in> {9, 10, 11, 12, 13, 32, 160, 5760, 8232, 8233, 8239, 8287, 12288, 65279}
      \<or> (8192 \<le> c \<and> c \<le> 8202))"

text \<open>\<open>.replace(/\s+/g, "_")\<close>: every maximal run of white space becomes one underscore.\<close>

function replaceWhiteSpace :: "jsstring \<Rightarrow> jsstring" where
  "replaceWhiteSpace [] = []"
| "replaceWhiteSpace (c # cs) =
     (if isWhiteSpace c then 95 # replaceWhiteSpace (dropWhile isWhiteSpace cs)
      else c # replaceWhiteSpace cs)"
  by pat_completeness auto
termination
  by (relation "measure length") (auto simp: le_imp_less_Suc length_dropWhile_le)

text \<open>The class \<open>[a-z0-9_]\<close>.\<close>

definition isKeyChar :: "nat \<Rightarrow> bool" where
  "isKeyChar c = ((97 \<le> c \<and> c \<le> 122) \<or> (48 \<le> c \<and> c \<le> 57) \<or> c = 95)"

definition sanitizeKey :: "jsstring \<Rightarrow> jsstring" where
  "sanitizeKey key = take 50 (filter isKeyChar (replaceWhiteSpace (toLowerCase key)))"

subsection \<open>ensureUniqueKey\<close>

text \<open>
  The decimal digits of a number, as a template literal writes the counter \<open>suffix\<close>
  (a natural number here: it starts at 1 and is only incremented).
\<close>

fun decimal :: "nat \<Rightarrow> jsstring" where
  "decimal n = (if n < 10 then [48 + n] else decimal (n div 10) @ [48 + n mod 10])"

declare decimal.simps [simp del]

text \<open>\<open>`${candidate}_${suffix}`\<close>\<close>

definition suffixed :: "jsstring \<Rightarrow> nat \<Rightarrow> jsstring" where
  "suffixed candidate suffix = candidate @ [95] @ decimal suffix"

text \<open>
  The counter is written differently for different numbers, so the loop of
  \<open>ensureUniqueKey\<close> meets each key of the finite set at most once.
\<close>

lemma decimal_nonempty: "decimal n \<noteq> []"
  by (subst decimal.simps) simp

lemma decimal_inj: "decimal n = decimal m \<Longrightarrow> n = m"
proof (induction n arbitrary: m rule: decimal.induct)
  case (1 n)
  show ?case
  proof (cases "n < 10")
    case True
    show ?thesis
    proof (cases "m < 10")
      case mt: True
      with True "1.prems" show ?thesis
        by (simp add: decimal.simps [of n] decimal.simps [of m])
    next
      case False
      with True "1.prems" decimal_nonempty [of "m div 10"] show ?thesis
        by (simp add: decimal.simps [of n] decimal.simps [of m])
    qed
  next
    case False
    show ?thesis
    proof (cases "m < 10")
      case True
      with False "1.prems" decimal_nonempty [of "n div 10"] show ?thesis
        by (simp add: decimal.simps [of n] decimal.simps [of m])
    next
      case mf: False
      with False "1.prems" have "decimal (n div 10) = decimal (m div 10)" "n mod 10 = m mod 10"
        by (simp_all add: decimal.simps [of n] decimal.simps [of m])
      with "1.IH" [OF False] have "n div 10 = m div 10" "n mod 10 = m mod 10" by blast+
      then show ?thesis by (metis div_mult_mod_eq)
    qed
  qed
qed

lemma suffixed_inj: "suffixed c n = suffixed c m \<Longrightarrow> n = m"
  by (simp add: suffixed_def decimal_inj)

lemma finite_suffixes:
  assumes "finite A"
  shows "finite {k. suffixed c k \<in> A}"
proof -
  have "inj (suffixed c)" by (auto intro: injI dest: suffixed_inj)
  then have "finite (suffixed c -` A)" using assms by (simp add: finite_vimageI)
  then show ?thesis by (simp add: vimage_def)
qed

text \<open>
  \<open>while (existingKeys.has(uniqueKey)) { uniqueKey = `${candidate}_${suffix++}`; }\<close>,
  from the loop state \<open>(suffix, uniqueKey)\<close>.
\<close>

function uniqueKeyLoop :: "jsstring list \<Rightarrow> jsstring \<Rightarrow> nat \<Rightarrow> jsstring \<Rightarrow> jsstring" where
  "uniqueKeyLoop existingKeys candidate suffix uniqueKey =
     (if uniqueKey \<in> set existingKeys
      then uniqueKeyLoop existingKeys candidate (Suc suffix) (suffixed candidate suffix)
      else uniqueKey)"
  by pat_completeness auto
termination
proof (relation "measure (\<lambda>(existingKeys, candidate, suffix, uniqueKey).
         card {k. suffix \<le> k \<and> suffixed candidate k \<in> set existingKeys}
         + (if uniqueKey \<in> set existingKeys then 1 else 0))")
  show "wf (measure (\<lambda>(existingKeys, candidate, suffix, uniqueKey).
         card {k. suffix \<le> k \<and> suffixed candidate k \<in> set existingKeys}
         + (if uniqueKey \<in> set existingKeys then 1 else 0)))"
    by simp
next
  fix existingKeys :: "jsstring list" and candidate :: jsstring
    and suffix :: nat and uniqueKey :: jsstring
  assume taken: "uniqueKey \<in> set existingKeys"
  let ?S = "\<lambda>n. {k. n \<le> k \<and> suffixed candidate k \<in> set existingKeys}"
  have fin: "finite (?S n)" for n
    by (rule finite_subset [OF _ finite_suffixes [of "set existingKeys" candidate]]) auto
  have "card (?S (Suc suffix)) + (if suffixed candidate suffix \<in> set existingKeys then 1 else 0)
        = card (?S suffix)"
  proof (cases "suffixed candidate suffix \<in> set existingKeys")
    case True
    then have "?S suffix = insert suffix (?S (Suc suffix))" by (auto simp: le_Suc_eq)
    moreover have "suffix \<notin> ?S (Suc suffix)" by simp
    ultimately show ?thesis using True fin [of "Suc suffix"] by simp
  next
    case False
    then have "?S suffix = ?S (Suc suffix)"
      by (auto simp: Suc_le_eq order_le_less)
    with False show ?thesis by simp
  qed
  with taken
  show "((existingKeys, candidate, Suc suffix, suffixed candidate suffix),
         (existingKeys, candidate, suffix, uniqueKey)) \<in>
        measure (\<lambda>(existingKeys, candidate, suffix, uniqueKey).
         card {k. suffix \<le> k \<and> suffixed candidate k \<in> set existingKeys}
         + (if uniqueKey \<in> set existingKeys then 1 else 0))"
    by simp
qed

declare uniqueKeyLoop.simps [simp del]

text \<open>
  The candidate of \<open>ensureUniqueKey\<close>:
  \<open>let candidate = sanitizeKey(desiredKey); if (!candidate) { candidate = "input"; }\<close>
\<close>

definition candidateKey :: "jsstring \<Rightarrow> jsstring" where
  "candidateKey desiredKey =
     (if sanitizeKey desiredKey = [] then ascii ''input'' else sanitizeKey desiredKey)"

text \<open>
  \<open>ensureUniqueKey(desiredKey, excludeId)\<close> over the current \<open>inputs\<close>. An \<open>excludeId\<close>
  left out is \<open>undefined\<close>, which no id equals. The set \<open>existingKeys\<close> is the list of its
  elements.
\<close>

definition ensureUniqueKey :: "TabInput list \<Rightarrow> jsstring \<Rightarrow> jsstring option \<Rightarrow> jsstring" where
  "ensureUniqueKey inputs desiredKey excludeId =
     (let candidate = candidateKey desiredKey;
          existingKeys = map i_key (filter (\<lambda>input. Some (i_id input) \<noteq> excludeId) inputs)
      in uniqueKeyLoop existingKeys candidate 1 candidate)"

subsection \<open>The operations of the hook\<close>

text \<open>
  \<open>saveInputs(nextInputs)\<close> sets the state to \<open>nextInputs\<close> and posts it when the hook has
  a tab id; the request is not modelled. Each operation below takes the current
  \<open>inputs\<close> and gives the next ones.
\<close>

definition saveInputs :: "TabInput list \<Rightarrow> TabInput list" where
  "saveInputs nextInputs = nextInputs"

definition DEFAULT_LABEL :: jsstring where
  "DEFAULT_LABEL = [3605, 3633, 3623, 3649, 3611, 3619, 3651, 3627, 3617, 3656]"

text \<open>
  \<open>addInput(payload)\<close> in a hook for \<open>tabId\<close>; \<open>now\<close> is the time stamp and \<open>newId\<close> the id
  that \<open>Date.now()\<close> and \<open>Math.random()\<close> give. The result is the value returned
  (\<open>None\<close> for \<open>null\<close>) and the next inputs.
\<close>

definition addInput ::
  "jsstring option \<Rightarrow> jsstring \<Rightarrow> jsstring \<Rightarrow> TabInputPartial option \<Rightarrow> TabInput list
     \<Rightarrow> jsstring option \<times> TabInput list" where
  "addInput tabId now newId payload inputs =
     (case tabId of
        None \<Rightarrow> (None, inputs)
      | Some tab \<Rightarrow>
          if tab = [] then (None, inputs)
          else
            (let desiredKey =
                   orElse (readProp p_key payload)
                     (ascii ''input_'' @ decimal (length inputs + 1));
                 nextKey = ensureUniqueKey inputs desiredKey None;
                 newInput =
                   \<lparr>i_id = newId,
                    i_tabId = tab,
                    i_key = nextKey,
                    i_label = orElse (readProp p_label payload) DEFAULT_LABEL,
                    i_type = (case readProp p_type payload of None \<Rightarrow> Text | Some ty \<Rightarrow> ty),
                    i_value =
                      Some (case readOptProp p_value payload of
                              Some v \<Rightarrow> v
                            | None \<Rightarrow> (case readOptProp p_defaultValue payload of
                                          Some d \<Rightarrow> d | None \<Rightarrow> [])),
                    i_defaultValue =
                      Some (case readOptProp p_defaultValue payload of Some d \<Rightarrow> d | None \<Rightarrow> []),
                    i_placeholder = readOptProp p_placeholder payload,
                    i_description = readOptProp p_description payload,
                    i_options = readOptProp p_options payload,
                    i_order = Some (int (length inputs)),
                    i_createdAt = Some now,
                    i_updatedAt = Some now\<rparr>
             in (Some newId, saveInputs (inputs @ [newInput]))))"

text \<open>
  The key \<open>updateInput\<close> gives the input it updates:
  \<open>updates.key && updates.key !== input.key ? ensureUniqueKey(updates.key, id) : input.key\<close>
\<close>

definition nextKey :: "TabInput list \<Rightarrow> jsstring \<Rightarrow> TabInputPartial \<Rightarrow> TabInput \<Rightarrow> jsstring" where
  "nextKey inputs ident updates input =
     (case p_key updates of
        None \<Rightarrow> i_key input
      | Some k \<Rightarrow> if k \<noteq> [] \<and> k \<noteq> i_key input
                 then ensureUniqueKey inputs k (Some ident) else i_key input)"

text \<open>\<open>updateInput(id, updates)\<close>; \<open>now\<close> is the time stamp.\<close>

definition updateInput ::
  "jsstring \<Rightarrow> jsstring \<Rightarrow> TabInputPartial \<Rightarrow> TabInput list \<Rightarrow> TabInput list" where
  "updateInput now ident updates inputs =
     saveInputs
       (map (\<lambda>input.
               if i_id input \<noteq> ident then input
               else input\<lparr>i_label := spread (p_label updates) (i_label input),
                          i_type := spread (p_type updates) (i_type input),
                          i_value := spread (p_value updates) (i_value input),
                          i_defaultValue := spread (p_defaultValue updates) (i_defaultValue input),
                          i_placeholder := spread (p_placeholder updates) (i_placeholder input),
                          i_description := spread (p_description updates) (i_description input),
                          i_options := spread (p_options updates) (i_options input),
                          i_order := spread (p_order updates) (i_order input),
                          i_createdAt := spread (p_createdAt updates) (i_createdAt input),
                          i_key := nextKey inputs ident updates input,
                          i_updatedAt := Some now\<rparr>)
          inputs)"

text \<open>\<open>removeInput(id)\<close>\<close>

definition removeInput :: "jsstring \<Rightarrow> TabInput list \<Rightarrow> TabInput list" where
  "removeInput ident inputs =
     saveInputs
       (mapIndexed (\<lambda>index input. input\<lparr>i_order := Some (int index)\<rparr>)
          (filter (\<lambda>input. i_id input \<noteq> ident) inputs))"

text \<open>\<open>reorderInputs(fromIndex, toIndex)\<close>\<close>

definition reorderInputs :: "int \<Rightarrow> int \<Rightarrow> TabInput list \<Rightarrow> error + TabInput list" where
  "reorderInputs fromIndex toIndex inputs =
     (if fromIndex = toIndex then Inr inputs
      else case moveElement fromIndex toIndex inputs of
             Inl e \<Rightarrow> Inl e
           | Inr nextInputs \<Rightarrow>
               Inr (saveInputs
                      (mapIndexed (\<lambda>index input. input\<lparr>i_order := Some (int index)\<rparr>)
                         nextInputs)))"

section \<open>The route /api/user-configs/tab-inputs\<close>

subsection \<open>GET\<close>

text \<open>
  A document of the collection \<open>tab_inputs\<close> as \<open>GET\<close> reads it. The collection is a
  map from \<open>tabId\<close> to the document that \<open>findOne({ tabId })\<close> gives for it.
  \<open>Unavailable\<close> is a store whose \<open>getDb\<close> or \<open>findOne\<close> throws.
\<close>

record StoredDoc =
  d_tabId :: jsstring
  d_inputs :: "TabInput list option"
  d_updatedAt :: "jsstring option"

datatype storage = Unavailable | Collection "jsstring \<Rightarrow> StoredDoc option"

datatype ResponseBody =
    ErrorBody jsstring
  | InputsBody jsstring "TabInput list"
  | SuccessBody

record Response =
  status :: nat
  body :: ResponseBody

text \<open>\<open>NextResponse.json(body)\<close> answers with status 200.\<close>

definition json :: "ResponseBody \<Rightarrow> Response" where
  "json b = \<lparr>status = 200, body = b\<rparr>"

definition jsonStatus :: "ResponseBody \<Rightarrow> nat \<Rightarrow> Response" where
  "jsonStatus b st = \<lparr>status = st, body = b\<rparr>"

text \<open>
  \<open>GET\<close>: \<open>tabId\<close> is \<open>searchParams.get("tabId")\<close>, \<open>None\<close> for \<open>null\<close> when the query has
  no such parameter.
\<close>

definition GET :: "jsstring option \<Rightarrow> storage \<Rightarrow> Response" where
  "GET tabId store =
     (case tabId of
        None \<Rightarrow> jsonStatus (ErrorBody (ascii ''tabId is required'')) 400
      | Some tab \<Rightarrow>
          if tab = [] then jsonStatus (ErrorBody (ascii ''tabId is required'')) 400
          else
            (case store of
               Unavailable \<Rightarrow> jsonStatus (ErrorBody (ascii ''Failed to fetch tab inputs'')) 500
             | Collection collection \<Rightarrow>
                 (case collection tab of
                    None \<Rightarrow> json (InputsBody tab [])
                  | Some doc \<Rightarrow>
                      json (InputsBody tab
                              (case d_inputs doc of None \<Rightarrow> [] | Some inputs \<Rightarrow> inputs)))))"

subsection \<open>POST\<close>

text \<open>
  The handler takes whatever JSON the request carries: the type it gives the body is
  erased when the code runs, so the body is a JSON value here, and so are \<open>tabId\<close> and
  the elements of \<open>inputs\<close>.
\<close>

text \<open>
  A number as \<open>JSON.parse\<close> gives it: a double, the finite ones by their value, with
  \<open>-0\<close> apart from \<open>0\<close>, and the two infinities that a literal like \<open>1e999\<close> gives.
\<close>

datatype jsnumber = Finite rat | NegZero | Infinity | NegInfinity

text \<open>
  A value as \<open>request.json()\<close> gives it; an object is the map from the names of its
  properties to their values.
\<close>

datatype jsvalue =
    JNull
  | JBool bool
  | JNumber jsnumber
  | JString jsstring
  | JArray "jsvalue list"
  | JObject "jsstring \<Rightarrow> jsvalue option"

text \<open>
  Whether a value is truthy; \<open>None\<close> is \<open>undefined\<close>. The falsy values that JSON has are
  \<open>null\<close>, \<open>false\<close>, the two zeros and the empty string.
\<close>

fun truthyValue :: "jsvalue option \<Rightarrow> bool" where
  "truthyValue None = False"
| "truthyValue (Some JNull) = False"
| "truthyValue (Some (JBool b)) = b"
| "truthyValue (Some (JNumber n)) = (n \<noteq> Finite 0 \<and> n \<noteq> NegZero)"
| "truthyValue (Some (JString s)) = (s \<noteq> [])"
| "truthyValue (Some (JArray xs)) = True"
| "truthyValue (Some (JObject props)) = True"

text \<open>
  The properties that an object spread \<open>{ ...v }\<close> copies, the own enumerable ones: those
  of an object; the elements of an array and the code units of a string under their
  indices; none of \<open>null\<close>, a boolean or a number.
\<close>

definition ownProps :: "jsvalue \<Rightarrow> jsstring \<Rightarrow> jsvalue option" where
  "ownProps v =
     (case v of
        JObject props \<Rightarrow> props
      | JArray xs \<Rightarrow> map_of (zip (map decimal [0..<length xs]) xs)
      | JString s \<Rightarrow> map_of (zip (map decimal [0..<length s]) (map (\<lambda>c. JString [c]) s))
      | _ \<Rightarrow> Map.empty)"

text \<open>
  Reading \<open>v.tabId\<close>, \<open>v.inputs\<close> or \<open>v.createdAt\<close>: a \<open>TypeError\<close> on \<open>null\<close>, which is the
  outer \<open>None\<close>; the property of an object, \<open>undefined\<close> when it has none of that name;
  \<open>undefined\<close> on every other value, whose prototype has no property of these names.
\<close>

definition readProperty :: "jsvalue \<Rightarrow> jsstring \<Rightarrow> jsvalue option option" where
  "readProperty v name =
     (case v of
        JNull \<Rightarrow> None
      | JObject props \<Rightarrow> Some (props name)
      | _ \<Rightarrow> Some None)"

text \<open>
  The element that \<open>inputs.map\<close> makes of \<open>input\<close> at \<open>index\<close>:
  \<open>{ ...input, tabId, order: index, updatedAt: now, createdAt: input.createdAt || now }\<close>,
  \<open>None\<close> when reading \<open>input.createdAt\<close> throws.
\<close>

definition sanitizedInput :: "jsvalue \<Rightarrow> jsstring \<Rightarrow> nat \<Rightarrow> jsvalue \<Rightarrow> jsvalue option" where
  "sanitizedInput tabId now index input =
     (case readProperty input (ascii ''createdAt'') of
        None \<Rightarrow> None
      | Some createdAt \<Rightarrow>
          Some (JObject
                  ((ownProps input)
                     (ascii ''tabId'' \<mapsto> tabId,
                      ascii ''order'' \<mapsto> JNumber (Finite (of_nat index)),
                      ascii ''updatedAt'' \<mapsto> JString now,
                      ascii ''createdAt'' \<mapsto>
                        (case createdAt of
                           None \<Rightarrow> JString now
                         | Some created \<Rightarrow>
                             if truthyValue (Some created) then created else JString now)))))"

text \<open>
  What the database does in the course of a request: \<open>getDb\<close> throws, or \<open>updateOne\<close>
  throws, or both return.
\<close>

datatype database = GetDbThrows | UpdateOneThrows | UpdateOneReturns

text \<open>
  A call \<open>collection.updateOne({ tabId }, { $set: { tabId, inputs, updatedAt } },
  { upsert })\<close>: the \<open>tabId\<close> of the filter, the three values to set, and the option.
\<close>

record UpdateOne =
  filter_tabId :: jsvalue
  set_tabId :: jsvalue
  set_inputs :: "jsvalue list"
  set_updatedAt :: jsstring
  upsert :: bool

text \<open>
  \<open>POST\<close>: \<open>requestJson\<close> is the value \<open>request.json()\<close> gives, \<open>None\<close> when it throws;
  \<open>now\<close> is the time stamp of the inputs and \<open>nowDate\<close> the date of the document. The
  result is the response and the call of \<open>updateOne\<close> the handler makes, \<open>None\<close> when it
  makes none. Every exception ends in the \<open>catch\<close>, which answers 500.
\<close>

definition POST ::
  "jsvalue option \<Rightarrow> jsstring \<Rightarrow> jsstring \<Rightarrow> database \<Rightarrow> Response \<times> UpdateOne option" where
  "POST requestJson now nowDate db =
     (case requestJson of
        None \<Rightarrow> (jsonStatus (ErrorBody (ascii ''Failed to save tab inputs'')) 500, None)
      | Some requestBody \<Rightarrow>
          (case (readProperty requestBody (ascii ''tabId''),
                 readProperty requestBody (ascii ''inputs'')) of
             (Some tabId, Some inputs) \<Rightarrow>
               (case tabId of
                  None \<Rightarrow> (jsonStatus (ErrorBody (ascii ''tabId is required'')) 400, None)
                | Some tab \<Rightarrow>
                    if \<not> truthyValue (Some tab)
                    then (jsonStatus (ErrorBody (ascii ''tabId is required'')) 400, None)
                    else
                      (case inputs of
                         Some (JArray xs) \<Rightarrow>
                           if db = GetDbThrows
                           then (jsonStatus (ErrorBody (ascii ''Failed to save tab inputs'')) 500, None)
                           else
                             (case those (mapIndexed (sanitizedInput tab now) xs) of
                                None \<Rightarrow>
                                  (jsonStatus (ErrorBody (ascii ''Failed to save tab inputs'')) 500,
                                   None)
                              | Some sanitizedInputs \<Rightarrow>
                                  (let call = \<lparr>filter_tabId = tab,
                                               set_tabId = tab,
                                               set_inputs = sanitizedInputs,
                                               set_updatedAt = nowDate,
                                               upsert = True\<rparr>
                                   in if db = UpdateOneThrows
                                      then (jsonStatus (ErrorBody (ascii ''Failed to save tab inputs'')) 500,
                                            Some call)
                                      else (json SuccessBody, Some call)))
                       | _ \<Rightarrow> (jsonStatus (ErrorBody (ascii ''inputs must be an array'')) 400, None)))
           | _ \<Rightarrow> (jsonStatus (ErrorBody (ascii ''Failed to save tab inputs'')) 500, None)))"

section \<open>Example values\<close>

text \<open>A group named by an ASCII id, with its order and the id of its parent.\<close>

definition mkGroup :: "string \<Rightarrow> int \<Rightarrow> string option \<Rightarrow> TabGroup" where
  "mkGroup i ord p = \<lparr>g_id = ascii i, g_name = ascii i, g_order = ord, g_parentId = map_option ascii p\<rparr>"


text \<open>A tab named by an ASCII id, with the id of its group.\<close>

definition mkTab :: "string \<Rightarrow> string option \<Rightarrow> DashboardTab" where
  "mkTab i g = \<lparr>t_id = ascii i, t_name = ascii i, t_createdAt = ascii ''2024-01-01'',
      t_isPublic = Some False, t_groupId = map_option ascii g, t_link = None, t_icon = None\<rparr>"

text \<open>An input named by an ASCII id, with its key and its order.\<close>

definition mkInput :: "string \<Rightarrow> string \<Rightarrow> int option \<Rightarrow> TabInput" where
  "mkInput i k ord =
     \<lparr>i_id = ascii i, i_tabId = ascii ''tab'', i_key = ascii k, i_label = ascii k,
      i_type = Text, i_value = Some [], i_defaultValue = Some [], i_placeholder = None,
      i_description = None, i_options = None, i_order = ord,
      i_createdAt = Some (ascii ''2024-01-01''), i_updatedAt = Some (ascii ''2024-01-01'')\<rparr>"

text \<open>An update that sets no property.\<close>

definition noUpdates :: TabInputPartial where
  "noUpdates = \<lparr>p_key = None, p_label = None, p_type = None, p_value = None,
      p_defaultValue = None, p_placeholder = None, p_description = None, p_options = None,
      p_order = None, p_createdAt = None, p_updatedAt = None\<rparr>"

section \<open>Re-parenting a group and the cycles of the parent links\<close>

text \<open>
  The groups after a move: every group with the id has the new parent and the new order.
\<close>

definition reparented :: "jsstring \<Rightarrow> jsstring option \<Rightarrow> int \<Rightarrow> TabGroup list \<Rightarrow> TabGroup list" where
  "reparented groupId T m gs =
     map (\<lambda>g. if g_id g = groupId then g\<lparr>g_order := m\<rparr> else g)
       (map (\<lambda>g. if g_id g = groupId then g\<lparr>g_parentId := T\<rparr> else g) gs)"



lemma find_distinct_id:
  "distinct (map g_id gs) \<Longrightarrow> g \<in> set gs \<Longrightarrow> find (\<lambda>x. g_id x = g_id g) gs = Some g"
  by (induction gs) (auto simp: image_iff)


subsection \<open>The descendant test\<close>

lemma isDescendant_Suc:
  "isDescendant (Suc room) gs c a =
     (case parentOf gs c of None \<Rightarrow> Some False
      | Some p \<Rightarrow> if p = a then Some True else isDescendant room gs p a)"
  by (simp add: parentOf_def split: option.splits)

lemma isDescendant_pos:
  "0 < room \<Longrightarrow> isDescendant room gs c a =
     (case parentOf gs c of None \<Rightarrow> Some False
      | Some p \<Rightarrow> if p = a then Some True else isDescendant (room - 1) gs p a)"
  by (cases room) (simp_all only: isDescendant_Suc diff_Suc_1 less_irrefl)

declare isDescendant.simps(2) [simp del]

lemma descendant_iff:
  "descendant gs c a \<longleftrightarrow>
     (case parentOf gs c of None \<Rightarrow> False | Some p \<Rightarrow> p = a \<or> descendant gs p a)"
  by (auto intro: descendant.intros elim: descendant.cases split: option.splits)

text \<open>When \<open>isDescendant\<close> returns, it returns whether \<open>ancestorId\<close> is on the chain of parents.\<close>

lemma isDescendant_sound:
  "isDescendant room gs c a = Some b \<Longrightarrow> b = descendant gs c a"
proof (induction room arbitrary: c b)
  case 0
  then show ?case by simp
next
  case (Suc room)
  show ?case
  proof (cases "parentOf gs c")
    case None
    with Suc.prems show ?thesis
      by (subst descendant_iff) (simp add: isDescendant_Suc)
  next
    case (Some p)
    show ?thesis
    proof (cases "p = a")
      case True
      with Some Suc.prems show ?thesis
        by (subst descendant_iff) (simp add: isDescendant_Suc)
    next
      case False
      with Some Suc.prems have "isDescendant room gs p a = Some b"
        by (simp add: isDescendant_Suc)
      then have "b = descendant gs p a" by (rule Suc.IH)
      with Some False show ?thesis by (subst descendant_iff) simp
    qed
  qed
qed


lemma targetIsDescendant_sound:
  "targetIsDescendant room gs t groupId = Some b \<Longrightarrow>
     b = (case orUndefined t of None \<Rightarrow> False | Some x \<Rightarrow> descendant gs x groupId)"
  by (auto simp: targetIsDescendant_def dest: isDescendant_sound split: option.splits if_splits)


subsection \<open>The two parent relations\<close>









subsection \<open>The links after a move\<close>


lemma reparented_map:
  "reparented groupId T m gs =
      map (\<lambda>g. if g_id g = groupId then g\<lparr>g_parentId := T, g_order := m\<rparr> else g) gs"
  by (simp add: reparented_def comp_def if_distrib cong: if_cong)







subsection \<open>The result of moveGroupToParent\<close>

lemma filter_others_map:
  assumes "\<And>x. g_id (h x) = g_id x"
  shows "filter (\<lambda>x. P x \<and> g_id x \<noteq> groupId) (map (\<lambda>x. if g_id x = groupId then h x else x) gs)
         = filter (\<lambda>x. P x \<and> g_id x \<noteq> groupId) gs"
  by (induction gs) (auto simp: assms)

lemma maxOrderAt_others:
  "maxOrderAt engine t groupId (map (\<lambda>g. if g_id g = groupId then g\<lparr>g_parentId := T\<rparr> else g) gs) =
     (if filter (\<lambda>x. sameLevel t x \<and> g_id x \<noteq> groupId) gs = [] then Some (- 1)
      else if maxArguments engine < length (filter (\<lambda>x. sameLevel t x \<and> g_id x \<noteq> groupId) gs)
      then None
      else Some (Max (set (map g_order (filter (\<lambda>x. sameLevel t x \<and> g_id x \<noteq> groupId) gs)))))"
proof -
  let ?others = "filter (\<lambda>x. sameLevel t x \<and> g_id x \<noteq> groupId) gs"
  have eq: "filter (\<lambda>x. sameLevel t x \<and> g_id x \<noteq> groupId)
          (map (\<lambda>g. if g_id g = groupId then g\<lparr>g_parentId := T\<rparr> else g) gs) = ?others"
    by (rule filter_others_map) simp
  show ?thesis
  proof (cases "map g_order ?others")
    case Nil
    then show ?thesis by (simp add: maxOrderAt_def eq)
  next
    case (Cons x xs)
    then have ne: "?others \<noteq> []" by auto
    have len: "length (x # xs) = length ?others"
      unfolding Cons [symmetric] by simp
    have "fold max xs x = Max (set (map g_order ?others))"
      unfolding Cons by (rule Max.set_eq_fold [symmetric])
    with ne len Cons show ?thesis by (simp add: maxOrderAt_def eq)
  qed
qed

lemma moveGroupToParent_moves:
  assumes "find (\<lambda>g. g_id g = groupId) (groups s) \<noteq> None" "t \<noteq> Some groupId"
    "targetIsDescendant (stackDepth engine) (groups s) t groupId = Some False"
  shows "moveGroupToParent engine groupId t s =
     (case maxOrderAt engine t groupId
             (map (\<lambda>g. if g_id g = groupId then g\<lparr>g_parentId := orUndefined t\<rparr> else g) (groups s)) of
        None \<Rightarrow> None
      | Some maxOrder \<Rightarrow>
          Some (save (tabs s) (reparented groupId (orUndefined t) (jsAdd1 maxOrder) (groups s))))"
  using assms by (auto simp: moveGroupToParent_def reparented_def Let_def split: option.splits)






section \<open>Removing a group\<close>

lemma filter_distinct_id:
  "distinct (map g_id gs) \<Longrightarrow> g \<in> set gs \<Longrightarrow> filter (\<lambda>x. g_id x \<noteq> g_id g) gs = remove1 g gs"
proof (induction gs)
  case Nil
  then show ?case by simp
next
  case (Cons x xs)
  show ?case
  proof (cases "x = g")
    case True
    with Cons.prems have "\<forall>y \<in> set xs. g_id y \<noteq> g_id g" by (auto simp: image_iff)
    then have "filter (\<lambda>x. g_id x \<noteq> g_id g) xs = xs" by (simp add: filter_id_conv)
    with True show ?thesis by simp
  next
    case False
    with Cons.prems have "g \<in> set xs" "g_id x \<noteq> g_id g" by (auto simp: image_iff)
    with Cons False show ?thesis by simp
  qed
qed

lemma map_remove1_distinct:
  "distinct (map f xs) \<Longrightarrow> x \<in> set xs \<Longrightarrow> map f (remove1 x xs) = remove1 (f x) (map f xs)"
  by (induction xs) (auto simp: image_iff)

text \<open>
  Two groups that share an id: \<open>removeGroup\<close>, called for the first one, also deletes the
  second one, which is another group and not a child of the first.
\<close>

theorem removeGroup_counterexample:
  "mkGroup ''a'' 0 None \<in> set [mkGroup ''a'' 0 None, mkGroup ''a'' 1 None]
   \<and> mkGroup ''a'' 1 None \<in> set [mkGroup ''a'' 0 None, mkGroup ''a'' 1 None]
   \<and> mkGroup ''a'' 1 None \<noteq> mkGroup ''a'' 0 None
   \<and> g_parentId (mkGroup ''a'' 1 None) \<noteq> Some (g_id (mkGroup ''a'' 0 None))
   \<and> groups (removeGroup (g_id (mkGroup ''a'' 0 None))
               \<lparr>tabs = [], groups = [mkGroup ''a'' 0 None, mkGroup ''a'' 1 None]\<rparr>) = []"
  by (simp add: removeGroup_def save_def mkGroup_def ascii_def)

text \<open>
  C2, for a state whose group ids are pairwise distinct. For a group \<open>g\<close> of the state,
  \<open>removeGroup (g_id g)\<close> leaves the other groups in their order, those whose
  \<open>parentId\<close> was the id of \<open>g\<close> re-parented to the \<open>parentId\<close> of \<open>g\<close> (to root level,
  \<open>undefined\<close>, when \<open>g\<close> has none or an empty one) and the others as they were; it leaves
  every tab, those of the group with \<open>groupId\<close> \<open>undefined\<close> and the others as they were.
  So \<open>g\<close> is the one group deleted and no tab is.
\<close>

theorem removeGroup_distinct_ids:
  assumes "distinct (map g_id (groups s))" and "g \<in> set (groups s)"
  shows "groups (removeGroup (g_id g) s) =
           map (\<lambda>x. if g_parentId x = Some (g_id g)
                     then x\<lparr>g_parentId := orUndefined (g_parentId g)\<rparr> else x)
             (remove1 g (groups s))
         \<and> tabs (removeGroup (g_id g) s) =
           map (\<lambda>t. if t_groupId t = Some (g_id g) then t\<lparr>t_groupId := None\<rparr> else t) (tabs s)
         \<and> map g_id (groups (removeGroup (g_id g) s)) = remove1 (g_id g) (map g_id (groups s))
         \<and> map t_id (tabs (removeGroup (g_id g) s)) = map t_id (tabs s)"
proof -
  have f: "find (\<lambda>x. g_id x = g_id g) (groups s) = Some g"
    using assms by (rule find_distinct_id)
  have r: "filter (\<lambda>x. g_id x \<noteq> g_id g) (groups s) = remove1 g (groups s)"
    using assms by (rule filter_distinct_id)
  have ids: "map g_id (remove1 g (groups s)) = remove1 (g_id g) (map g_id (groups s))"
    using assms by (rule map_remove1_distinct)
  have gs: "groups (removeGroup (g_id g) s) =
           map (\<lambda>x. if g_parentId x = Some (g_id g)
                     then x\<lparr>g_parentId := orUndefined (g_parentId g)\<rparr> else x)
             (remove1 g (groups s))"
    by (simp add: removeGroup_def save_def f r)
  have ts: "tabs (removeGroup (g_id g) s) =
           map (\<lambda>t. if t_groupId t = Some (g_id g) then t\<lparr>t_groupId := None\<rparr> else t) (tabs s)"
    by (simp add: removeGroup_def save_def)
  have "map g_id (groups (removeGroup (g_id g) s)) = map g_id (remove1 g (groups s))"
    unfolding gs by (simp add: comp_def if_distrib cong: if_cong)
  moreover have "map t_id (tabs (removeGroup (g_id g) s)) = map t_id (tabs s)"
    unfolding ts by (simp add: comp_def if_distrib cong: if_cong)
  ultimately show ?thesis using gs ts ids by simp
qed

theorem removeGroup_distinct_ids_witness:
  "distinct (map g_id [mkGroup ''a'' 0 None, mkGroup ''b'' 0 (Some ''a''), mkGroup ''c'' 0 (Some ''b'')])
   \<and> mkGroup ''b'' 0 (Some ''a'') \<in> set [mkGroup ''a'' 0 None, mkGroup ''b'' 0 (Some ''a''), mkGroup ''c'' 0 (Some ''b'')]
   \<and> groups (removeGroup (ascii ''b'')
        \<lparr>tabs = [mkTab ''t1'' (Some ''b''), mkTab ''t2'' (Some ''a'')],
         groups = [mkGroup ''a'' 0 None, mkGroup ''b'' 0 (Some ''a''), mkGroup ''c'' 0 (Some ''b'')]\<rparr>)
       = [mkGroup ''a'' 0 None, mkGroup ''c'' 0 (Some ''a'')]
   \<and> tabs (removeGroup (ascii ''b'')
        \<lparr>tabs = [mkTab ''t1'' (Some ''b''), mkTab ''t2'' (Some ''a'')],
         groups = [mkGroup ''a'' 0 None, mkGroup ''b'' 0 (Some ''a''), mkGroup ''c'' 0 (Some ''b'')]\<rparr>)
       = [mkTab ''t1'' None, mkTab ''t2'' (Some ''a'')]"
  using removeGroup_distinct_ids
    [of "\<lparr>tabs = [mkTab ''t1'' (Some ''b''), mkTab ''t2'' (Some ''a'')],
         groups = [mkGroup ''a'' 0 None, mkGroup ''b'' 0 (Some ''a''), mkGroup ''c'' 0 (Some ''b'')]\<rparr>"
        "mkGroup ''b'' 0 (Some ''a'')"]
  by (simp add: mkGroup_def mkTab_def ascii_def)

section \<open>What a move changes\<close>

text \<open>
  Up to \<open>2^53\<close> in magnitude the sum \<open>m + 1\<close> of the source is the sum of the integers.
\<close>

lemma jsAdd1_safe: "\<bar>m\<bar> < 2 ^ 53 \<Longrightarrow> jsAdd1 m = m + 1"
  by (auto simp: jsAdd1_def abs_if split: if_splits)

lemma jsAdd1_Max:
  assumes "xs \<noteq> []" "\<forall>y \<in> set xs. \<bar>f y\<bar> < 2 ^ 53"
  shows "jsAdd1 (Max (set (map f xs))) = Max (set (map f xs)) + 1"
proof -
  have "Max (set (map f xs)) \<in> set (map f xs)"
    using assms(1) by (intro Max_in) simp_all
  then obtain y where "y \<in> set xs" "Max (set (map f xs)) = f y"
    by auto
  with assms(2) have "\<bar>Max (set (map f xs))\<bar> < 2 ^ 53" by simp
  then show ?thesis by (rule jsAdd1_safe)
qed

text \<open>
  A move to the target \<open>""\<close>: the target is not \<open>null\<close>, and the \<open>parentId\<close> of the moved
  group becomes \<open>undefined\<close>, not the target. A move to a level whose maximum order is
  \<open>2^53\<close>: the order of the moved group becomes \<open>2^53\<close>, the nearest double of
  \<open>2^53 + 1\<close>, which is the maximum order and not one more.
\<close>

theorem moveGroupToParent_counterexample:
  "moveGroupToParent \<lparr>stackDepth = 10000, maxArguments = 65535\<rparr> (ascii ''b'') (Some [])
     \<lparr>tabs = [], groups = [mkGroup ''a'' 0 None, mkGroup ''b'' 0 (Some ''a'')]\<rparr>
   = Some \<lparr>tabs = [], groups = [mkGroup ''a'' 0 None, mkGroup ''b'' 1 None]\<rparr>
   \<and> g_parentId (mkGroup ''b'' 1 None) \<noteq> Some []
   \<and> moveGroupToParent \<lparr>stackDepth = 10000, maxArguments = 65535\<rparr> (ascii ''b'') None
     \<lparr>tabs = [], groups = [mkGroup ''a'' 9007199254740992 None, mkGroup ''b'' 0 (Some ''a'')]\<rparr>
   = Some \<lparr>tabs = [], groups = [mkGroup ''a'' 9007199254740992 None, mkGroup ''b'' 9007199254740992 None]\<rparr>
   \<and> (9007199254740992 :: int) = 2 ^ 53"
  by (simp add: moveGroupToParent_def targetIsDescendant_def
        maxOrderAt_def jsAdd1_def sameLevel_def save_def mkGroup_def ascii_def)

text \<open>
  C6, as the source has it. Let \<open>g\<close> be a group of the state, the target not the id of
  \<open>g\<close>, and let the descendant test return false: ids resolved to the first group that
  bears them, no parent link leads from the target to \<open>g\<close>, and the stack has room for
  the chain of parents of the target. Let the groups with another id at the target
  level be no more than a call takes arguments, and their orders integers below \<open>2^53\<close>
  in magnitude. Then \<open>moveGroupToParent\<close> gives every group with the id of \<open>g\<close> (\<open>g\<close> alone
  when ids are distinct) the \<open>parentId\<close> \<open>targetParentId\<close>, \<open>undefined\<close> when the target is
  \<open>null\<close> or the empty string, and the order one more than the maximum order of the
  groups with another id at the target level, 0 when there is none; it changes no
  field of a group with another id and no tab.
\<close>

theorem moveGroupToParent_move:
  assumes g: "g \<in> set (groups s)"
    and self: "targetParentId \<noteq> Some (g_id g)"
    and desc: "\<not> (\<exists>t. orUndefined targetParentId = Some t \<and> descendant (groups s) t (g_id g))"
    and returns: "targetIsDescendant (stackDepth engine) (groups s) targetParentId (g_id g) \<noteq> None"
    and args: "length (filter (\<lambda>y. sameLevel targetParentId y \<and> g_id y \<noteq> g_id g) (groups s))
                 \<le> maxArguments engine"
    and safe: "\<forall>y \<in> set (filter (\<lambda>y. sameLevel targetParentId y \<and> g_id y \<noteq> g_id g) (groups s)).
                 \<bar>g_order y\<bar> < 2 ^ 53"
  shows "moveGroupToParent engine (g_id g) targetParentId s =
     Some \<lparr>tabs = tabs s,
           groups =
             map (\<lambda>x. if g_id x = g_id g
                       then x\<lparr>g_parentId := orUndefined targetParentId,
                              g_order :=
                                (if filter (\<lambda>y. sameLevel targetParentId y \<and> g_id y \<noteq> g_id g) (groups s) = []
                                 then 0
                                 else Max (set (map g_order
                                        (filter (\<lambda>y. sameLevel targetParentId y \<and> g_id y \<noteq> g_id g)
                                           (groups s)))) + 1)\<rparr>
                       else x)
               (groups s)\<rparr>"
proof -
  let ?others = "filter (\<lambda>y. sameLevel targetParentId y \<and> g_id y \<noteq> g_id g) (groups s)"
  have nd: "\<not> (case orUndefined targetParentId of None \<Rightarrow> False
                | Some x \<Rightarrow> descendant (groups s) x (g_id g))"
    using desc by (auto split: option.splits)
  from returns obtain b where
    b: "targetIsDescendant (stackDepth engine) (groups s) targetParentId (g_id g) = Some b"
    by auto
  from targetIsDescendant_sound [OF b] nd have "\<not> b" by simp
  with b have td: "targetIsDescendant (stackDepth engine) (groups s) targetParentId (g_id g) = Some False"
    by simp
  have f: "find (\<lambda>x. g_id x = g_id g) (groups s) \<noteq> None"
    using g by (auto simp: find_None_iff)
  have m: "maxOrderAt engine targetParentId (g_id g)
        (map (\<lambda>x. if g_id x = g_id g then x\<lparr>g_parentId := orUndefined targetParentId\<rparr> else x) (groups s))
      = Some (if ?others = [] then - 1 else Max (set (map g_order ?others)))"
    using args by (simp add: maxOrderAt_others)
  have j: "jsAdd1 (if ?others = [] then - 1 else Max (set (map g_order ?others)))
      = (if ?others = [] then 0 else Max (set (map g_order ?others)) + 1)"
  proof (cases "?others = []")
    case True
    then show ?thesis by (simp add: jsAdd1_def)
  next
    case False
    then have "jsAdd1 (Max (set (map g_order ?others))) = Max (set (map g_order ?others)) + 1"
      using safe by (rule jsAdd1_Max)
    with False show ?thesis by simp
  qed
  show ?thesis
    unfolding moveGroupToParent_moves [OF f self td] m
    by (simp only: option.case j reparented_map save_def)
qed

theorem moveGroupToParent_move_witness:
  "mkGroup ''c'' 5 None \<in> set [mkGroup ''a'' 0 None, mkGroup ''b'' 2 (Some ''a''), mkGroup ''c'' 5 None]
   \<and> Some (ascii ''a'') \<noteq> Some (g_id (mkGroup ''c'' 5 None))
   \<and> \<not> descendant [mkGroup ''a'' 0 None, mkGroup ''b'' 2 (Some ''a''), mkGroup ''c'' 5 None]
         (ascii ''a'') (ascii ''c'')
   \<and> targetIsDescendant 10000 [mkGroup ''a'' 0 None, mkGroup ''b'' 2 (Some ''a''), mkGroup ''c'' 5 None]
         (Some (ascii ''a'')) (ascii ''c'') = Some False
   \<and> filter (\<lambda>y. sameLevel (Some (ascii ''a'')) y \<and> g_id y \<noteq> ascii ''c'')
         [mkGroup ''a'' 0 None, mkGroup ''b'' 2 (Some ''a''), mkGroup ''c'' 5 None]
       = [mkGroup ''b'' 2 (Some ''a'')]
   \<and> moveGroupToParent \<lparr>stackDepth = 10000, maxArguments = 65535\<rparr> (ascii ''c'') (Some (ascii ''a''))
       \<lparr>tabs = [mkTab ''t'' (Some ''c'')],
        groups = [mkGroup ''a'' 0 None, mkGroup ''b'' 2 (Some ''a''), mkGroup ''c'' 5 None]\<rparr>
     = Some \<lparr>tabs = [mkTab ''t'' (Some ''c'')],
             groups = [mkGroup ''a'' 0 None, mkGroup ''b'' 2 (Some ''a''), mkGroup ''c'' 3 (Some ''a'')]\<rparr>"
proof -
  let ?gs = "[mkGroup ''a'' 0 None, mkGroup ''b'' 2 (Some ''a''), mkGroup ''c'' 5 None]"
  let ?s = "\<lparr>tabs = [mkTab ''t'' (Some ''c'')], groups = ?gs\<rparr>"
  let ?e = "\<lparr>stackDepth = 10000, maxArguments = 65535\<rparr>"
  have g: "mkGroup ''c'' 5 None \<in> set (groups ?s)" by simp
  have self: "Some (ascii ''a'') \<noteq> Some (g_id (mkGroup ''c'' 5 None))"
    by (simp add: mkGroup_def ascii_def)
  have nd: "\<not> descendant ?gs (ascii ''a'') (ascii ''c'')"
    by (subst descendant_iff) (simp add: parentOf_def mkGroup_def ascii_def)
  then have desc: "\<not> (\<exists>t. orUndefined (Some (ascii ''a'')) = Some t
                     \<and> descendant (groups ?s) t (g_id (mkGroup ''c'' 5 None)))"
    by (simp add: mkGroup_def ascii_def)
  have td: "targetIsDescendant 10000 ?gs (Some (ascii ''a'')) (ascii ''c'') = Some False"
    by (simp add: targetIsDescendant_def isDescendant_pos parentOf_def mkGroup_def ascii_def)
  then have returns: "targetIsDescendant (stackDepth ?e) (groups ?s) (Some (ascii ''a''))
      (g_id (mkGroup ''c'' 5 None)) \<noteq> None"
    by (simp add: mkGroup_def)
  have others: "filter (\<lambda>y. sameLevel (Some (ascii ''a'')) y \<and> g_id y \<noteq> ascii ''c'') ?gs
      = [mkGroup ''b'' 2 (Some ''a'')]"
    by (simp add: sameLevel_def mkGroup_def ascii_def)
  then have o: "filter (\<lambda>y. sameLevel (Some (ascii ''a'')) y \<and> g_id y \<noteq> g_id (mkGroup ''c'' 5 None)) (groups ?s)
      = [mkGroup ''b'' 2 (Some ''a'')]"
    by (simp add: mkGroup_def)
  have args: "length (filter (\<lambda>y. sameLevel (Some (ascii ''a'')) y \<and> g_id y \<noteq> g_id (mkGroup ''c'' 5 None)) (groups ?s))
      \<le> maxArguments ?e"
    unfolding o by simp
  have safe: "\<forall>y \<in> set (filter (\<lambda>y. sameLevel (Some (ascii ''a'')) y \<and> g_id y \<noteq> g_id (mkGroup ''c'' 5 None)) (groups ?s)).
      \<bar>g_order y\<bar> < 2 ^ 53"
    unfolding o by (simp add: mkGroup_def)
  from moveGroupToParent_move [OF g self desc returns args safe]
  have "moveGroupToParent ?e (ascii ''c'') (Some (ascii ''a'')) ?s
     = Some \<lparr>tabs = [mkTab ''t'' (Some ''c'')],
             groups = [mkGroup ''a'' 0 None, mkGroup ''b'' 2 (Some ''a''), mkGroup ''c'' 3 (Some ''a'')]\<rparr>"
    unfolding o by (simp add: mkGroup_def ascii_def)
  with g self nd td others show ?thesis by simp
qed

section \<open>Moving an element of a list\<close>

text \<open>
  \<open>ys\<close> is \<open>xs\<close> with the element at position \<open>f\<close> moved to position \<open>t\<close>: it stands at
  position \<open>t\<close> of \<open>ys\<close>, and without it \<open>ys\<close> is \<open>xs\<close> without its element at \<open>f\<close>.
\<close>

definition isMoveOf :: "nat \<Rightarrow> nat \<Rightarrow> 'a list \<Rightarrow> 'a list \<Rightarrow> bool" where
  "isMoveOf f t xs ys =
     (length ys = length xs \<and> ys ! t = xs ! f
      \<and> take t ys @ drop (Suc t) ys = take f xs @ drop (Suc f) xs)"

lemma actualStart_valid: "0 \<le> i \<Longrightarrow> i \<le> int n \<Longrightarrow> actualStart i n = nat i"
  by (auto simp: actualStart_def)

definition removeAt :: "nat \<Rightarrow> 'a list \<Rightarrow> 'a list" where
  "removeAt k xs = take k xs @ drop (Suc k) xs"

definition insertAt :: "nat \<Rightarrow> 'a \<Rightarrow> 'a list \<Rightarrow> 'a list" where
  "insertAt k x xs = take k xs @ x # drop k xs"

lemma length_removeAt: "k < length xs \<Longrightarrow> length (removeAt k xs) = length xs - 1"
  by (auto simp: removeAt_def)

lemma length_insertAt: "length (insertAt k x xs) = Suc (length xs)"
  by (auto simp: insertAt_def)

lemma nth_insertAt: "k \<le> length xs \<Longrightarrow> insertAt k x xs ! k = x"
  by (simp add: insertAt_def nth_append)

lemma removeAt_insertAt: "k \<le> length xs \<Longrightarrow> removeAt k (insertAt k x xs) = xs"
  by (simp add: insertAt_def removeAt_def)

lemma mset_insertAt: "mset (insertAt k x xs) = add_mset x (mset xs)"
proof -
  have "mset (take k xs) + mset (drop k xs) = mset xs"
    by (metis append_take_drop_id mset_append)
  then show ?thesis by (simp add: insertAt_def)
qed

lemma mset_removeAt: "k < length xs \<Longrightarrow> add_mset (xs ! k) (mset (removeAt k xs)) = mset xs"
proof -
  assume "k < length xs"
  then have "xs = take k xs @ xs ! k # drop (Suc k) xs" by (rule id_take_nth_drop)
  then have "mset xs = mset (take k xs @ xs ! k # drop (Suc k) xs)" by simp
  then show ?thesis by (simp add: removeAt_def)
qed

lemma splice_delete1_valid:
  "0 \<le> i \<Longrightarrow> i < int (length xs) \<Longrightarrow>
     splice_delete1 i xs = (Some (xs ! nat i), removeAt (nat i) xs)"
  by (simp add: splice_delete1_def actualStart_valid removeAt_def Let_def)

lemma splice_insert_valid:
  "0 \<le> i \<Longrightarrow> i \<le> int (length xs) \<Longrightarrow> splice_insert i x xs = insertAt (nat i) x xs"
  by (simp add: splice_insert_def actualStart_valid insertAt_def Let_def)

lemma moveElement_valid:
  assumes "0 \<le> fromIndex" "fromIndex < int (length xs)" "0 \<le> toIndex" "toIndex < int (length xs)"
  shows "moveElement fromIndex toIndex xs =
           Inr (insertAt (nat toIndex) (xs ! nat fromIndex) (removeAt (nat fromIndex) xs))"
proof -
  have "length (removeAt (nat fromIndex) xs) = length xs - 1"
    using assms by (intro length_removeAt) simp
  then have "toIndex \<le> int (length (removeAt (nat fromIndex) xs))"
    using assms by simp
  then show ?thesis
    using assms by (simp add: moveElement_def splice_delete1_valid splice_insert_valid)
qed

lemma isMoveOf_moved:
  assumes "f < length xs" "t < length xs"
  shows "isMoveOf f t xs (insertAt t (xs ! f) (removeAt f xs))"
proof -
  have l: "length (removeAt f xs) = length xs - 1" using assms by (intro length_removeAt)
  then have t: "t \<le> length (removeAt f xs)" using assms by simp
  have "removeAt t (insertAt t (xs ! f) (removeAt f xs)) = removeAt f xs"
    using t by (rule removeAt_insertAt)
  moreover have "insertAt t (xs ! f) (removeAt f xs) ! t = xs ! f"
    using t by (rule nth_insertAt)
  moreover have "length (insertAt t (xs ! f) (removeAt f xs)) = length xs"
    using assms l by (simp add: length_insertAt)
  ultimately show ?thesis by (simp add: isMoveOf_def removeAt_def)
qed

lemma mset_moved:
  assumes "f < length xs"
  shows "mset (insertAt t (xs ! f) (removeAt f xs)) = mset xs"
  using assms by (simp add: mset_insertAt mset_removeAt)

lemma set_moved:
  assumes "f < length xs"
  shows "set (insertAt t (xs ! f) (removeAt f xs)) = set xs"
  using mset_moved [OF assms, of t] by (metis set_mset_mset)


section \<open>Reordering the tabs of a group\<close>

text \<open>
  The tabs \<open>reorderTabs\<close> works on: those of the group given (a truthy \<open>groupId\<close>), those
  without a group (a falsy \<open>groupId\<close>) when none is given.
\<close>

definition inTargetGroup :: "jsstring option \<Rightarrow> DashboardTab \<Rightarrow> bool" where
  "inTargetGroup groupId =
     (\<lambda>t. if truthy groupId then t_groupId t = groupId else \<not> truthy (t_groupId t))"

lemma groupTabs_filter: "groupTabs groupId ts = filter (inTargetGroup groupId) ts"
  by (simp add: groupTabs_def inTargetGroup_def)

lemma otherTabs_filter: "otherTabs groupId ts = filter (\<lambda>t. \<not> inTargetGroup groupId t) ts"
  by (simp add: otherTabs_def inTargetGroup_def)

lemma mset_partition_append:
  assumes "mset r = mset (filter P xs)"
  shows "mset (filter (\<lambda>x. \<not> P x) xs @ r) = mset xs"
  using assms by (simp add: union_commute)

text \<open>
  C8. For positions \<open>fromIndex\<close> and \<open>toIndex\<close> of the list of tabs of the targeted group,
  \<open>reorderTabs\<close> saves the tabs outside the group, in their order, followed by the tabs
  of the group with the one at \<open>fromIndex\<close> moved to \<open>toIndex\<close>: a permutation of the
  tabs (the same tabs, each as often as before, no field changed), and the groups as
  they were. The last conjunct is a call that moves the only tab of a group to the
  place where it is and still changes the position of another tab.
\<close>

theorem reorderTabs_valid:
  assumes "0 \<le> fromIndex"
    and "fromIndex < int (length (filter (inTargetGroup groupId) (tabs s)))"
    and "0 \<le> toIndex"
    and "toIndex < int (length (filter (inTargetGroup groupId) (tabs s)))"
  shows "(\<exists>r. reorderTabs fromIndex toIndex groupId s =
               Inr \<lparr>tabs = filter (\<lambda>t. \<not> inTargetGroup groupId t) (tabs s) @ r,
                    groups = groups s\<rparr>
             \<and> isMoveOf (nat fromIndex) (nat toIndex) (filter (inTargetGroup groupId) (tabs s)) r
             \<and> mset (filter (\<lambda>t. \<not> inTargetGroup groupId t) (tabs s) @ r) = mset (tabs s)
             \<and> (\<forall>t \<in> set r. inTargetGroup groupId t))
         \<and> reorderTabs 0 0 (Some (ascii ''g''))
              \<lparr>tabs = [mkTab ''a'' (Some ''g''), mkTab ''b'' None], groups = []\<rparr>
            = Inr \<lparr>tabs = [mkTab ''b'' None, mkTab ''a'' (Some ''g'')], groups = []\<rparr>"
proof
  let ?sub = "filter (inTargetGroup groupId) (tabs s)"
  let ?r = "insertAt (nat toIndex) (?sub ! nat fromIndex) (removeAt (nat fromIndex) ?sub)"
  have f: "nat fromIndex < length ?sub" and t: "nat toIndex < length ?sub"
    using assms by simp_all
  have "moveElement fromIndex toIndex ?sub = Inr ?r"
    using assms by (rule moveElement_valid)
  then have 1: "reorderTabs fromIndex toIndex groupId s =
               Inr \<lparr>tabs = filter (\<lambda>t. \<not> inTargetGroup groupId t) (tabs s) @ ?r,
                    groups = groups s\<rparr>"
    by (simp add: reorderTabs_def groupTabs_filter otherTabs_filter save_def)
  have 2: "isMoveOf (nat fromIndex) (nat toIndex) ?sub ?r"
    using f t by (rule isMoveOf_moved)
  have m: "mset ?r = mset ?sub" using f by (rule mset_moved)
  then have 3: "mset (filter (\<lambda>t. \<not> inTargetGroup groupId t) (tabs s) @ ?r) = mset (tabs s)"
    by (rule mset_partition_append)
  have "set ?r = set ?sub" using f by (rule set_moved)
  then have 4: "\<forall>t \<in> set ?r. inTargetGroup groupId t" by simp
  from 1 2 3 4
  show "\<exists>r. reorderTabs fromIndex toIndex groupId s =
               Inr \<lparr>tabs = filter (\<lambda>t. \<not> inTargetGroup groupId t) (tabs s) @ r,
                    groups = groups s\<rparr>
             \<and> isMoveOf (nat fromIndex) (nat toIndex) (filter (inTargetGroup groupId) (tabs s)) r
             \<and> mset (filter (\<lambda>t. \<not> inTargetGroup groupId t) (tabs s) @ r) = mset (tabs s)
             \<and> (\<forall>t \<in> set r. inTargetGroup groupId t)"
    by blast
next
  show "reorderTabs 0 0 (Some (ascii ''g''))
              \<lparr>tabs = [mkTab ''a'' (Some ''g''), mkTab ''b'' None], groups = []\<rparr>
            = Inr \<lparr>tabs = [mkTab ''b'' None, mkTab ''a'' (Some ''g'')], groups = []\<rparr>"
    by (simp add: reorderTabs_def groupTabs_def otherTabs_def moveElement_def splice_delete1_def
        splice_insert_def actualStart_def save_def mkTab_def ascii_def)
qed

theorem reorderTabs_valid_witness:
  "(0::int) \<le> 2
   \<and> (2::int) < int (length (filter (inTargetGroup (Some (ascii ''g'')))
          [mkTab ''a'' (Some ''g''), mkTab ''b'' None, mkTab ''c'' (Some ''g''), mkTab ''d'' (Some ''g'')]))
   \<and> reorderTabs 2 0 (Some (ascii ''g''))
        \<lparr>tabs = [mkTab ''a'' (Some ''g''), mkTab ''b'' None, mkTab ''c'' (Some ''g''), mkTab ''d'' (Some ''g'')],
         groups = []\<rparr>
      = Inr \<lparr>tabs = [mkTab ''b'' None, mkTab ''d'' (Some ''g''), mkTab ''a'' (Some ''g''), mkTab ''c'' (Some ''g'')],
             groups = []\<rparr>
   \<and> mset [mkTab ''b'' None, mkTab ''d'' (Some ''g''), mkTab ''a'' (Some ''g''), mkTab ''c'' (Some ''g'')]
      = mset [mkTab ''a'' (Some ''g''), mkTab ''b'' None, mkTab ''c'' (Some ''g''), mkTab ''d'' (Some ''g'')]"
proof -
  let ?s = "\<lparr>tabs = [mkTab ''a'' (Some ''g''), mkTab ''b'' None, mkTab ''c'' (Some ''g''), mkTab ''d'' (Some ''g'')],
         groups = []\<rparr>"
  have h1: "(0::int) \<le> 2" and h3: "(0::int) \<le> 0" by simp_all
  have h2: "(2::int) < int (length (filter (inTargetGroup (Some (ascii ''g''))) (tabs ?s)))"
    and h4: "(0::int) < int (length (filter (inTargetGroup (Some (ascii ''g''))) (tabs ?s)))"
    by (simp_all add: inTargetGroup_def mkTab_def ascii_def)
  have e: "reorderTabs 2 0 (Some (ascii ''g'')) ?s
      = Inr \<lparr>tabs = [mkTab ''b'' None, mkTab ''d'' (Some ''g''), mkTab ''a'' (Some ''g''), mkTab ''c'' (Some ''g'')],
             groups = []\<rparr>"
    by (simp add: reorderTabs_def groupTabs_def otherTabs_def moveElement_def splice_delete1_def
        splice_insert_def actualStart_def save_def mkTab_def ascii_def)
  from reorderTabs_valid [OF h1 h2 h3 h4] e
  have "mset [mkTab ''b'' None, mkTab ''d'' (Some ''g''), mkTab ''a'' (Some ''g''), mkTab ''c'' (Some ''g'')]
      = mset (tabs ?s)"
    by (metis (no_types, lifting) DashboardTabsState.select_convs(1) sum.inject(2))
  with h1 h2 e show ?thesis by simp
qed

section \<open>Reordering groups and inputs\<close>

lemma mapIndexed_zip: "mapIndexed f xs = map (\<lambda>(i, x). f i x) (zip [0..<length xs] xs)"
  by (simp add: mapIndexed_def enumerate_eq_zip)

lemma length_mapIndexed: "length (mapIndexed f xs) = length xs"
  by (simp add: mapIndexed_def)

lemma map_mapIndexed_elem:
  assumes "\<And>i x. h (f i x) = k x"
  shows "map h (mapIndexed f xs) = map k xs"
proof -
  have "map h (mapIndexed f xs) = map (\<lambda>p. k (snd p)) (zip [0..<length xs] xs)"
    by (simp add: mapIndexed_zip assms split_def)
  also have "\<dots> = map k (map snd (zip [0..<length xs] xs))" by (simp only: map_map comp_def)
  also have "map snd (zip [0..<length xs] xs) = xs" by (rule map_snd_zip) simp
  finally show ?thesis .
qed

lemma map_mapIndexed_index:
  assumes "\<And>i x. h (f i x) = q i"
  shows "map h (mapIndexed f xs) = map q [0..<length xs]"
proof -
  have "map h (mapIndexed f xs) = map (\<lambda>p. q (fst p)) (zip [0..<length xs] xs)"
    by (simp add: mapIndexed_zip assms split_def)
  also have "\<dots> = map q (map fst (zip [0..<length xs] xs))" by (simp only: map_map comp_def)
  also have "map fst (zip [0..<length xs] xs) = [0..<length xs]" by (rule map_fst_zip) simp
  finally show ?thesis .
qed

lemma isMoveOf_map:
  assumes "isMoveOf f t xs ys" "f < length xs" "t < length xs"
  shows "isMoveOf f t (map h xs) (map h ys)"
proof -
  from assms have l: "length ys = length xs" and n: "ys ! t = xs ! f"
    and r: "take t ys @ drop (Suc t) ys = take f xs @ drop (Suc f) xs"
    by (simp_all add: isMoveOf_def)
  from r have "map h (take t ys @ drop (Suc t) ys) = map h (take f xs @ drop (Suc f) xs)"
    by (rule arg_cong)
  then have "take t (map h ys) @ drop (Suc t) (map h ys)
      = take f (map h xs) @ drop (Suc f) (map h xs)"
    by (simp add: take_map drop_map)
  moreover from l n assms(2,3) have "map h ys ! t = map h xs ! f" by simp
  ultimately show ?thesis using l by (simp add: isMoveOf_def)
qed

text \<open>
  \<open>reorderInputs\<close> with \<open>fromIndex = toIndex\<close> returns at once: the one input of this list
  keeps the order 5, which is not its position.
\<close>

theorem reorderInputs_counterexample:
  "(0::int) < int (length [mkInput ''x'' ''k'' (Some 5)])
   \<and> reorderInputs 0 0 [mkInput ''x'' ''k'' (Some 5)] = Inr [mkInput ''x'' ''k'' (Some 5)]
   \<and> i_order (mkInput ''x'' ''k'' (Some 5)) \<noteq> Some 0"
  by (simp add: reorderInputs_def mkInput_def)

text \<open>
  C5, as the source has it. For positions \<open>fromIndex\<close> and \<open>toIndex\<close> of the list of groups
  at the level of \<open>parentId\<close>, \<open>reorderGroups\<close> saves the groups of the other levels as
  they are, followed by the groups of the level with the one at \<open>fromIndex\<close> moved to
  \<open>toIndex\<close> and the orders 0, 1, ..., n-1 in this sequence; the tabs stay. For positions
  \<open>fromIndex \<noteq> toIndex\<close> of the inputs, \<open>reorderInputs\<close> moves the input at \<open>fromIndex\<close>
  to \<open>toIndex\<close> and gives the inputs the orders 0, 1, ..., n-1 in the new sequence; for
  \<open>fromIndex = toIndex\<close> it leaves the inputs as they are, orders included.
\<close>

theorem reorder_valid:
  "(0 \<le> fromIndex \<and> fromIndex < int (length (filter (sameLevel parentId) (groups s)))
    \<and> 0 \<le> toIndex \<and> toIndex < int (length (filter (sameLevel parentId) (groups s)))
    \<longrightarrow> (\<exists>r. reorderGroups fromIndex toIndex parentId s =
               Inr \<lparr>tabs = tabs s,
                    groups = filter (\<lambda>g. \<not> sameLevel parentId g) (groups s) @ r\<rparr>
             \<and> map g_order r = map int [0..<length r]
             \<and> isMoveOf (nat fromIndex) (nat toIndex)
                  (map (\<lambda>g. g\<lparr>g_order := 0\<rparr>) (filter (sameLevel parentId) (groups s)))
                  (map (\<lambda>g. g\<lparr>g_order := 0\<rparr>) r)))
   \<and> (0 \<le> fromIndex \<and> fromIndex < int (length inputs)
      \<and> 0 \<le> toIndex \<and> toIndex < int (length inputs)
    \<longrightarrow> (if fromIndex = toIndex then reorderInputs fromIndex toIndex inputs = Inr inputs
         else (\<exists>r. reorderInputs fromIndex toIndex inputs = Inr r
                 \<and> map i_order r = map (\<lambda>n. Some (int n)) [0..<length r]
                 \<and> isMoveOf (nat fromIndex) (nat toIndex)
                      (map (\<lambda>i. i\<lparr>i_order := None\<rparr>) inputs)
                      (map (\<lambda>i. i\<lparr>i_order := None\<rparr>) r))))"
proof (intro conjI impI)
  assume v: "0 \<le> fromIndex \<and> fromIndex < int (length (filter (sameLevel parentId) (groups s)))
    \<and> 0 \<le> toIndex \<and> toIndex < int (length (filter (sameLevel parentId) (groups s)))"
  let ?sib = "filter (sameLevel parentId) (groups s)"
  let ?m = "insertAt (nat toIndex) (?sib ! nat fromIndex) (removeAt (nat fromIndex) ?sib)"
  let ?r = "mapIndexed (\<lambda>idx g. g\<lparr>g_order := int idx\<rparr>) ?m"
  have f: "nat fromIndex < length ?sib" and t: "nat toIndex < length ?sib"
    using v by (simp_all add: nat_less_iff)
  have "moveElement fromIndex toIndex ?sib = Inr ?m"
    using v by (intro moveElement_valid) simp_all
  then have 1: "reorderGroups fromIndex toIndex parentId s =
      Inr \<lparr>tabs = tabs s, groups = filter (\<lambda>g. \<not> sameLevel parentId g) (groups s) @ ?r\<rparr>"
    by (simp add: reorderGroups_def save_def Let_def)
  have 2: "map g_order ?r = map int [0..<length ?r]"
    unfolding length_mapIndexed by (rule map_mapIndexed_index) simp
  have "isMoveOf (nat fromIndex) (nat toIndex) ?sib ?m" using f t by (rule isMoveOf_moved)
  then have "isMoveOf (nat fromIndex) (nat toIndex)
      (map (\<lambda>g. g\<lparr>g_order := 0\<rparr>) ?sib) (map (\<lambda>g. g\<lparr>g_order := 0\<rparr>) ?m)"
    using f t by (rule isMoveOf_map)
  moreover have "map (\<lambda>g. g\<lparr>g_order := 0\<rparr>) ?r = map (\<lambda>g. g\<lparr>g_order := 0\<rparr>) ?m"
    by (rule map_mapIndexed_elem) simp
  ultimately have 3: "isMoveOf (nat fromIndex) (nat toIndex)
      (map (\<lambda>g. g\<lparr>g_order := 0\<rparr>) ?sib) (map (\<lambda>g. g\<lparr>g_order := 0\<rparr>) ?r)"
    by simp
  from 1 2 3
  show "\<exists>r. reorderGroups fromIndex toIndex parentId s =
               Inr \<lparr>tabs = tabs s,
                    groups = filter (\<lambda>g. \<not> sameLevel parentId g) (groups s) @ r\<rparr>
             \<and> map g_order r = map int [0..<length r]
             \<and> isMoveOf (nat fromIndex) (nat toIndex)
                  (map (\<lambda>g. g\<lparr>g_order := 0\<rparr>) (filter (sameLevel parentId) (groups s)))
                  (map (\<lambda>g. g\<lparr>g_order := 0\<rparr>) r)"
    by blast
next
  assume v: "0 \<le> fromIndex \<and> fromIndex < int (length inputs)
      \<and> 0 \<le> toIndex \<and> toIndex < int (length inputs)"
  let ?m = "insertAt (nat toIndex) (inputs ! nat fromIndex) (removeAt (nat fromIndex) inputs)"
  let ?r = "mapIndexed (\<lambda>index input. input\<lparr>i_order := Some (int index)\<rparr>) ?m"
  have f: "nat fromIndex < length inputs" and t: "nat toIndex < length inputs"
    using v by (simp_all add: nat_less_iff)
  show "if fromIndex = toIndex then reorderInputs fromIndex toIndex inputs = Inr inputs
         else (\<exists>r. reorderInputs fromIndex toIndex inputs = Inr r
                 \<and> map i_order r = map (\<lambda>n. Some (int n)) [0..<length r]
                 \<and> isMoveOf (nat fromIndex) (nat toIndex)
                      (map (\<lambda>i. i\<lparr>i_order := None\<rparr>) inputs)
                      (map (\<lambda>i. i\<lparr>i_order := None\<rparr>) r))"
  proof (cases "fromIndex = toIndex")
    case True
    then show ?thesis by (simp add: reorderInputs_def)
  next
    case False
    have "moveElement fromIndex toIndex inputs = Inr ?m"
      using v by (intro moveElement_valid) simp_all
    with False have 1: "reorderInputs fromIndex toIndex inputs = Inr ?r"
      by (simp add: reorderInputs_def saveInputs_def)
    have 2: "map i_order ?r = map (\<lambda>n. Some (int n)) [0..<length ?r]"
      unfolding length_mapIndexed by (rule map_mapIndexed_index) simp
    have "isMoveOf (nat fromIndex) (nat toIndex) inputs ?m" using f t by (rule isMoveOf_moved)
    then have "isMoveOf (nat fromIndex) (nat toIndex)
        (map (\<lambda>i. i\<lparr>i_order := None\<rparr>) inputs) (map (\<lambda>i. i\<lparr>i_order := None\<rparr>) ?m)"
      using f t by (rule isMoveOf_map)
    moreover have "map (\<lambda>i. i\<lparr>i_order := None\<rparr>) ?r = map (\<lambda>i. i\<lparr>i_order := None\<rparr>) ?m"
      by (rule map_mapIndexed_elem) simp
    ultimately have 3: "isMoveOf (nat fromIndex) (nat toIndex)
        (map (\<lambda>i. i\<lparr>i_order := None\<rparr>) inputs) (map (\<lambda>i. i\<lparr>i_order := None\<rparr>) ?r)"
      by simp
    from False 1 2 3 show ?thesis by auto
  qed
qed


theorem reorder_valid_witness:
  "(0::int) \<le> 0
   \<and> (0::int) < int (length (filter (sameLevel None)
         [mkGroup ''a'' 5 None, mkGroup ''c'' 9 (Some ''a''), mkGroup ''b'' 7 None]))
   \<and> (1::int) < int (length (filter (sameLevel None)
         [mkGroup ''a'' 5 None, mkGroup ''c'' 9 (Some ''a''), mkGroup ''b'' 7 None]))
   \<and> reorderGroups 0 1 None
        \<lparr>tabs = [], groups = [mkGroup ''a'' 5 None, mkGroup ''c'' 9 (Some ''a''), mkGroup ''b'' 7 None]\<rparr>
      = Inr \<lparr>tabs = [], groups = [mkGroup ''c'' 9 (Some ''a''), mkGroup ''b'' 0 None, mkGroup ''a'' 1 None]\<rparr>
   \<and> (1::int) < int (length [mkInput ''x'' ''k1'' None, mkInput ''y'' ''k2'' (Some 9)])
   \<and> reorderInputs 1 0 [mkInput ''x'' ''k1'' None, mkInput ''y'' ''k2'' (Some 9)]
      = Inr [mkInput ''y'' ''k2'' (Some 0), mkInput ''x'' ''k1'' (Some 1)]
   \<and> reorderInputs 1 1 [mkInput ''x'' ''k1'' None, mkInput ''y'' ''k2'' (Some 9)]
      = Inr [mkInput ''x'' ''k1'' None, mkInput ''y'' ''k2'' (Some 9)]"
proof -
  let ?gs = "[mkGroup ''a'' 5 None, mkGroup ''c'' 9 (Some ''a''), mkGroup ''b'' 7 None]"
  let ?is = "[mkInput ''x'' ''k1'' None, mkInput ''y'' ''k2'' (Some 9)]"
  have sib: "filter (sameLevel None) ?gs = [mkGroup ''a'' 5 None, mkGroup ''b'' 7 None]"
    by (simp add: sameLevel_def mkGroup_def ascii_def)
  have g: "reorderGroups 0 1 None \<lparr>tabs = [], groups = ?gs\<rparr>
      = Inr \<lparr>tabs = [], groups = [mkGroup ''c'' 9 (Some ''a''), mkGroup ''b'' 0 None, mkGroup ''a'' 1 None]\<rparr>"
    by (simp add: reorderGroups_def sameLevel_def moveElement_def splice_delete1_def
        splice_insert_def actualStart_def mapIndexed_def save_def mkGroup_def ascii_def)
  have i: "reorderInputs 1 0 ?is = Inr [mkInput ''y'' ''k2'' (Some 0), mkInput ''x'' ''k1'' (Some 1)]"
    by (simp add: reorderInputs_def moveElement_def splice_delete1_def
        splice_insert_def actualStart_def mapIndexed_def saveInputs_def mkInput_def ascii_def)
  from reorder_valid [of 1 None "\<lparr>tabs = [], groups = ?gs\<rparr>" 1 ?is]
  have "reorderInputs 1 1 ?is = Inr ?is" by (simp add: sib)
  with sib g i show ?thesis by simp
qed

section \<open>Removing an input\<close>

text \<open>
  C9. \<open>removeInput\<close> leaves, in their order and with no field but \<open>order\<close> changed, the
  inputs whose id is not the one given: as many fewer as there are inputs with that id
  (none fewer when there is none). Their orders are 0, 1, ..., n-1 in the list it leaves.
\<close>

theorem removeInput_filter:
  "map (\<lambda>i. i\<lparr>i_order := None\<rparr>) (removeInput ident inputs)
     = map (\<lambda>i. i\<lparr>i_order := None\<rparr>) (filter (\<lambda>i. i_id i \<noteq> ident) inputs)
   \<and> map i_order (removeInput ident inputs)
     = map (\<lambda>n. Some (int n)) [0..<length (removeInput ident inputs)]
   \<and> length (removeInput ident inputs)
     = length inputs - length (filter (\<lambda>i. i_id i = ident) inputs)"
proof (intro conjI)
  show "map (\<lambda>i. i\<lparr>i_order := None\<rparr>) (removeInput ident inputs)
     = map (\<lambda>i. i\<lparr>i_order := None\<rparr>) (filter (\<lambda>i. i_id i \<noteq> ident) inputs)"
    unfolding removeInput_def saveInputs_def by (rule map_mapIndexed_elem) simp
  show "map i_order (removeInput ident inputs)
     = map (\<lambda>n. Some (int n)) [0..<length (removeInput ident inputs)]"
    unfolding removeInput_def saveInputs_def length_mapIndexed
    by (rule map_mapIndexed_index) simp
  have "length (filter (\<lambda>i. i_id i = ident) inputs)
        + length (filter (\<lambda>i. i_id i \<noteq> ident) inputs) = length inputs"
    by (rule sum_length_filter_compl)
  then show "length (removeInput ident inputs)
     = length inputs - length (filter (\<lambda>i. i_id i = ident) inputs)"
    by (simp add: removeInput_def saveInputs_def length_mapIndexed)
qed

section \<open>Keys of the inputs stay distinct\<close>

lemma uniqueKeyLoop_fresh: "uniqueKeyLoop ek c n u \<notin> set ek"
  by (induction ek c n u rule: uniqueKeyLoop.induct) (simp add: uniqueKeyLoop.simps)

lemma ensureUniqueKey_fresh:
  assumes "input \<in> set inputs" "Some (i_id input) \<noteq> excludeId"
  shows "ensureUniqueKey inputs desiredKey excludeId \<noteq> i_key input"
proof -
  let ?ek = "map i_key (filter (\<lambda>input. Some (i_id input) \<noteq> excludeId) inputs)"
  have "i_key input \<in> set ?ek" using assms by auto
  moreover have "ensureUniqueKey inputs desiredKey excludeId \<notin> set ?ek"
    unfolding ensureUniqueKey_def Let_def by (rule uniqueKeyLoop_fresh)
  ultimately show ?thesis by metis
qed

lemma addInput_keys:
  "map i_key (snd (addInput tabId now newId payload inputs)) = map i_key inputs
   \<or> (\<exists>d. map i_key (snd (addInput tabId now newId payload inputs))
          = map i_key inputs @ [ensureUniqueKey inputs d None])"
  by (auto simp: addInput_def saveInputs_def Let_def split: option.splits)

lemma addInput_distinct:
  assumes "distinct (map i_key inputs)"
  shows "distinct (map i_key (snd (addInput tabId now newId payload inputs)))"
proof -
  have "ensureUniqueKey inputs d None \<notin> set (map i_key inputs)" for d
    using ensureUniqueKey_fresh [of _ inputs None d] by auto
  with assms addInput_keys [of tabId now newId payload inputs] show ?thesis
    by auto
qed

lemma distinct_rekey:
  assumes "distinct (map i_key xs)" "distinct (map i_id xs)"
    and "\<And>x y. x \<in> set xs \<Longrightarrow> y \<in> set xs \<Longrightarrow> i_id x = ident \<Longrightarrow> i_id y \<noteq> ident \<Longrightarrow> g x \<noteq> i_key y"
  shows "distinct (map (\<lambda>x. if i_id x = ident then g x else i_key x) xs)"
  using assms
proof (induction xs)
  case Nil
  then show ?case by simp
next
  case (Cons x xs)
  have IH: "distinct (map (\<lambda>x. if i_id x = ident then g x else i_key x) xs)"
    using Cons.prems by (intro Cons.IH) auto
  show ?case
  proof (cases "i_id x = ident")
    case True
    with Cons.prems(2) have others: "\<forall>y \<in> set xs. i_id y \<noteq> ident" by (auto simp: image_iff)
    then have eq: "map (\<lambda>x. if i_id x = ident then g x else i_key x) xs = map i_key xs"
      by (intro map_cong) auto
    have "g x \<notin> set (map i_key xs)"
      using Cons.prems(3) [of x] True others by auto
    moreover have "distinct (map i_key xs)" using Cons.prems(1) by simp
    ultimately show ?thesis using True by (simp only: list.map if_True distinct.simps eq simp_thms)
  next
    case False
    have "i_key x \<noteq> (if i_id y = ident then g y else i_key y)" if "y \<in> set xs" for y
    proof (cases "i_id y = ident")
      case True
      with Cons.prems(3) [of y x] that False show ?thesis by auto
    next
      case f: False
      with Cons.prems(1) that show ?thesis by (auto simp: image_iff)
    qed
    then have "\<forall>y \<in> set xs. i_key x \<noteq> (if i_id y = ident then g y else i_key y)"
      by blast
    then have "i_key x \<notin> set (map (\<lambda>x. if i_id x = ident then g x else i_key x) xs)"
      unfolding set_map image_iff by blast
    with IH False show ?thesis by simp
  qed
qed

lemma updateInput_keys:
  "map i_key (updateInput now ident updates inputs)
     = map (\<lambda>input. if i_id input = ident then nextKey inputs ident updates input
                     else i_key input) inputs"
  by (simp add: updateInput_def saveInputs_def comp_def if_distrib cong: if_cong)

lemma updateInput_distinct:
  assumes "distinct (map i_key inputs)" "distinct (map i_id inputs)"
  shows "distinct (map i_key (updateInput now ident updates inputs))"
  unfolding updateInput_keys
proof (rule distinct_rekey [OF assms])
  fix x y
  assume x: "x \<in> set inputs" and y: "y \<in> set inputs" and ix: "i_id x = ident" and iy: "i_id y \<noteq> ident"
  from ix iy have "x \<noteq> y" by auto
  with assms(1) x y have k: "i_key x \<noteq> i_key y"
    by (meson distinct_map inj_on_contraD)
  from y iy have "ensureUniqueKey inputs d (Some ident) \<noteq> i_key y" for d
    by (intro ensureUniqueKey_fresh) auto
  with k show "nextKey inputs ident updates x \<noteq> i_key y"
    by (auto simp: nextKey_def split: option.splits)
qed


text \<open>
  Two inputs with the same id and different keys: \<open>updateInput\<close> gives both the key
  asked for, since \<open>ensureUniqueKey\<close> leaves the keys of both out of its set.
\<close>

theorem updateInput_counterexample:
  "distinct (map i_key [mkInput ''x'' ''a'' None, mkInput ''x'' ''b'' None])
   \<and> map i_key (updateInput (ascii ''now'') (ascii ''x'') (noUpdates\<lparr>p_key := Some (ascii ''c'')\<rparr>)
                  [mkInput ''x'' ''a'' None, mkInput ''x'' ''b'' None])
       = [ascii ''c'', ascii ''c'']
   \<and> \<not> distinct [ascii ''c'', ascii ''c'']"
  by (simp add: updateInput_def nextKey_def saveInputs_def ensureUniqueKey_def candidateKey_def sanitizeKey_def toLowerCase_def
      toLowerCaseUnit_def isWhiteSpace_def isKeyChar_def uniqueKeyLoop.simps noUpdates_def
      mkInput_def ascii_def)

text \<open>
  C3, as the source has it. \<open>ensureUniqueKey\<close> returns a key different from the key of
  every input whose id is not \<open>excludeId\<close>. So when the keys of the inputs are pairwise
  distinct, the keys of the inputs that \<open>addInput\<close> leaves are; and when the ids are
  pairwise distinct too, so are the keys of the inputs that \<open>updateInput\<close> leaves,
  whatever the update.
\<close>

theorem ensureUniqueKey_unique:
  "(\<forall>input \<in> set inputs. Some (i_id input) \<noteq> excludeId
       \<longrightarrow> ensureUniqueKey inputs desiredKey excludeId \<noteq> i_key input)
   \<and> (distinct (map i_key inputs)
       \<longrightarrow> distinct (map i_key (snd (addInput tabId now newId payload inputs))))
   \<and> (distinct (map i_key inputs) \<and> distinct (map i_id inputs)
       \<longrightarrow> distinct (map i_key (updateInput now ident updates inputs)))"
  using ensureUniqueKey_fresh [of _ inputs excludeId desiredKey]
    addInput_distinct [of inputs tabId now newId payload]
    updateInput_distinct [of inputs now ident updates]
  by blast

theorem ensureUniqueKey_unique_witness:
  "distinct (map i_key [mkInput ''x'' ''a'' None, mkInput ''y'' ''b'' None])
   \<and> distinct (map i_id [mkInput ''x'' ''a'' None, mkInput ''y'' ''b'' None])
   \<and> ensureUniqueKey [mkInput ''x'' ''a'' None, mkInput ''y'' ''b'' None] (ascii ''A'') (Some (ascii ''y''))
       = ascii ''a_1''
   \<and> map i_key (updateInput (ascii ''now'') (ascii ''y'') (noUpdates\<lparr>p_key := Some (ascii ''A'')\<rparr>)
                  [mkInput ''x'' ''a'' None, mkInput ''y'' ''b'' None])
       = [ascii ''a'', ascii ''a_1'']
   \<and> map i_key (snd (addInput (Some (ascii ''tab'')) (ascii ''now'') (ascii ''z'')
                         (Some (noUpdates\<lparr>p_key := Some (ascii ''b'')\<rparr>))
                         [mkInput ''x'' ''a'' None, mkInput ''y'' ''b'' None]))
       = [ascii ''a'', ascii ''b'', ascii ''b_1'']
   \<and> distinct [ascii ''a'', ascii ''a_1'']
   \<and> distinct [ascii ''a'', ascii ''b'', ascii ''b_1'']"
proof -
  let ?is = "[mkInput ''x'' ''a'' None, mkInput ''y'' ''b'' None]"
  have dk: "distinct (map i_key ?is)" and di: "distinct (map i_id ?is)"
    by (simp_all add: mkInput_def ascii_def)
  have e: "ensureUniqueKey ?is (ascii ''A'') (Some (ascii ''y'')) = ascii ''a_1''"
    by (simp add: ensureUniqueKey_def candidateKey_def sanitizeKey_def toLowerCase_def
      toLowerCaseUnit_def isWhiteSpace_def isKeyChar_def uniqueKeyLoop.simps suffixed_def
      decimal.simps mkInput_def ascii_def)
  have u: "map i_key (updateInput (ascii ''now'') (ascii ''y'') (noUpdates\<lparr>p_key := Some (ascii ''A'')\<rparr>) ?is)
       = [ascii ''a'', ascii ''a_1'']"
    by (simp add: updateInput_def nextKey_def saveInputs_def ensureUniqueKey_def candidateKey_def sanitizeKey_def toLowerCase_def
      toLowerCaseUnit_def isWhiteSpace_def isKeyChar_def uniqueKeyLoop.simps suffixed_def
      decimal.simps noUpdates_def mkInput_def ascii_def)
  have a: "map i_key (snd (addInput (Some (ascii ''tab'')) (ascii ''now'') (ascii ''z'')
                         (Some (noUpdates\<lparr>p_key := Some (ascii ''b'')\<rparr>)) ?is))
       = [ascii ''a'', ascii ''b'', ascii ''b_1'']"
    by (simp add: addInput_def readProp_def readOptProp_def Let_def saveInputs_def ensureUniqueKey_def candidateKey_def sanitizeKey_def toLowerCase_def
      toLowerCaseUnit_def isWhiteSpace_def isKeyChar_def uniqueKeyLoop.simps suffixed_def
      decimal.simps noUpdates_def mkInput_def ascii_def)
  from ensureUniqueKey_unique [of ?is "Some (ascii ''y'')" "ascii ''A''"
      "Some (ascii ''tab'')" "ascii ''now''" "ascii ''z''" "Some (noUpdates\<lparr>p_key := Some (ascii ''b'')\<rparr>)"
      "ascii ''y''" "noUpdates\<lparr>p_key := Some (ascii ''A'')\<rparr>"] dk di
  have "distinct (map i_key (snd (addInput (Some (ascii ''tab'')) (ascii ''now'') (ascii ''z'')
                         (Some (noUpdates\<lparr>p_key := Some (ascii ''b'')\<rparr>)) ?is)))"
    and "distinct (map i_key (updateInput (ascii ''now'') (ascii ''y'') (noUpdates\<lparr>p_key := Some (ascii ''A'')\<rparr>) ?is))"
    by blast+
  with dk di e u a show ?thesis by (simp only: simp_thms)
qed

section \<open>The shape of an assigned key\<close>

lemma ensureUniqueKey_candidate:
  "ensureUniqueKey inputs desiredKey excludeId =
     uniqueKeyLoop (map i_key (filter (\<lambda>input. Some (i_id input) \<noteq> excludeId) inputs))
       (candidateKey desiredKey) 1 (candidateKey desiredKey)"
  by (simp add: ensureUniqueKey_def Let_def)

lemma sanitizeKey_chars: "\<forall>c \<in> set (sanitizeKey key). isKeyChar c"
  by (auto simp: sanitizeKey_def dest: in_set_takeD)

lemma sanitizeKey_length: "length (sanitizeKey key) \<le> 50"
  by (simp add: sanitizeKey_def)

lemma candidateKey_props:
  "candidateKey desiredKey \<noteq> [] \<and> length (candidateKey desiredKey) \<le> 50
   \<and> (\<forall>c \<in> set (candidateKey desiredKey). isKeyChar c)"
proof (cases "sanitizeKey desiredKey = []")
  case True
  then show ?thesis by (simp add: candidateKey_def ascii_def isKeyChar_def)
next
  case False
  then show ?thesis
    using sanitizeKey_chars [of desiredKey] sanitizeKey_length [of desiredKey]
    by (simp add: candidateKey_def)
qed

lemma decimal_digits: "\<forall>c \<in> set (decimal n). 48 \<le> c \<and> c \<le> 57"
proof (induction n rule: decimal.induct)
  case (1 n)
  show ?case
  proof (cases "n < 10")
    case True
    then show ?thesis by (subst decimal.simps) simp
  next
    case False
    have "n mod 10 < 10" by simp
    then have "48 + n mod 10 \<le> 57" by linarith
    with False "1.IH" show ?thesis by (subst decimal.simps) auto
  qed
qed

lemma suffixed_chars:
  assumes "\<forall>c \<in> set cand. isKeyChar c"
  shows "\<forall>c \<in> set (suffixed cand n). isKeyChar c"
  using assms decimal_digits [of n] by (auto simp: suffixed_def isKeyChar_def)

lemma uniqueKeyLoop_shape:
  "uniqueKeyLoop ek c n u = u \<or> (\<exists>m \<ge> n. uniqueKeyLoop ek c n u = suffixed c m)"
proof (induction ek c n u rule: uniqueKeyLoop.induct)
  case (1 ek c n u)
  show ?case
  proof (cases "u \<in> set ek")
    case True
    with "1.IH" have "uniqueKeyLoop ek c (Suc n) (suffixed c n) = suffixed c n
        \<or> (\<exists>m \<ge> Suc n. uniqueKeyLoop ek c (Suc n) (suffixed c n) = suffixed c m)"
      by simp
    then have "\<exists>m \<ge> n. uniqueKeyLoop ek c (Suc n) (suffixed c n) = suffixed c m"
      by (auto intro: Suc_leD)
    with True show ?thesis by (subst (1 2) uniqueKeyLoop.simps) simp
  next
    case False
    then show ?thesis by (subst uniqueKeyLoop.simps) simp
  qed
qed

lemma uniqueKeyLoop_free: "u \<notin> set ek \<Longrightarrow> uniqueKeyLoop ek c n u = u"
  by (subst uniqueKeyLoop.simps) simp


lemma keyChar_not_space: "isKeyChar c \<Longrightarrow> \<not> isWhiteSpace c"
  by (auto simp: isKeyChar_def isWhiteSpace_def)

lemma toLowerCase_keyChars: "\<forall>c \<in> set s. isKeyChar c \<Longrightarrow> toLowerCase s = s"
  by (induction s) (auto simp: toLowerCase_def toLowerCaseUnit_def isKeyChar_def)

lemma replaceWhiteSpace_keyChars: "\<forall>c \<in> set s. isKeyChar c \<Longrightarrow> replaceWhiteSpace s = s"
  by (induction s) (auto dest: keyChar_not_space)

lemma sanitizeKey_valid:
  assumes "\<forall>c \<in> set s. isKeyChar c" "length s \<le> 50"
  shows "sanitizeKey s = s"
  using assms by (simp add: sanitizeKey_def toLowerCase_keyChars replaceWhiteSpace_keyChars)

lemma ensureUniqueKey_collision:
  assumes "\<forall>c \<in> set k. isKeyChar c" "length k \<le> 50" "k \<noteq> []"
  shows "ensureUniqueKey [x\<lparr>i_key := k\<rparr>] k None = k @ [95, 49]"
proof -
  have c: "candidateKey k = k" using assms by (simp add: candidateKey_def sanitizeKey_valid)
  have s: "suffixed k (Suc 0) = k @ [95, 49]" by (simp add: suffixed_def decimal.simps)
  have "uniqueKeyLoop [k] k (Suc 0) k = uniqueKeyLoop [k] k (Suc (Suc 0)) (suffixed k (Suc 0))"
    by (subst uniqueKeyLoop.simps) simp
  also have "\<dots> = suffixed k (Suc 0)"
    by (rule uniqueKeyLoop_free) (simp add: suffixed_def)
  finally have "uniqueKeyLoop [k] k (Suc 0) k = k @ [95, 49]" by (simp only: s)
  then show ?thesis by (simp add: ensureUniqueKey_candidate c)
qed

text \<open>
  A key of 50 letters \<open>a\<close> asked for when an input has it already: the key assigned is
  the 50 letters and \<open>_1\<close>, 52 characters. And an update whose key is the key the input
  has, \<open>My Key\<close>: \<open>updateInput\<close> gives the input this key again, capital letters and
  space included.
\<close>

theorem assignedKey_counterexample:
  "length (replicate 50 (97::nat)) = 50
   \<and> i_key (last (snd (addInput (Some (ascii ''tab'')) (ascii ''now'') (ascii ''z'')
         (Some (noUpdates\<lparr>p_key := Some (replicate 50 97)\<rparr>))
         [(mkInput ''x'' ''k'' None)\<lparr>i_key := replicate 50 97\<rparr>])))
     = replicate 50 97 @ ascii ''_1''
   \<and> length (replicate 50 (97::nat) @ ascii ''_1'') = 52
   \<and> map i_key (updateInput (ascii ''now'') (ascii ''x'')
         (noUpdates\<lparr>p_key := Some (ascii ''My Key'')\<rparr>) [mkInput ''x'' ''My Key'' None])
     = [ascii ''My Key'']
   \<and> 77 \<in> set (ascii ''My Key'') \<and> \<not> isKeyChar 77"
proof -
  have "ensureUniqueKey [(mkInput ''x'' ''k'' None)\<lparr>i_key := replicate 50 97\<rparr>] (replicate 50 97) None
      = replicate 50 97 @ [95, 49]"
    by (rule ensureUniqueKey_collision) (simp_all add: isKeyChar_def)
  then have 1: "i_key (last (snd (addInput (Some (ascii ''tab'')) (ascii ''now'') (ascii ''z'')
         (Some (noUpdates\<lparr>p_key := Some (replicate 50 97)\<rparr>))
         [(mkInput ''x'' ''k'' None)\<lparr>i_key := replicate 50 97\<rparr>])))
     = replicate 50 97 @ ascii ''_1''"
    by (simp add: addInput_def readProp_def saveInputs_def Let_def noUpdates_def ascii_def)
  have 2: "map i_key (updateInput (ascii ''now'') (ascii ''x'')
         (noUpdates\<lparr>p_key := Some (ascii ''My Key'')\<rparr>) [mkInput ''x'' ''My Key'' None])
     = [ascii ''My Key'']"
    by (simp add: updateInput_def nextKey_def saveInputs_def noUpdates_def mkInput_def)
  have 3: "77 \<in> set (ascii ''My Key'') \<and> \<not> isKeyChar 77"
    by (simp add: ascii_def isKeyChar_def)
  have 4: "length (replicate 50 (97::nat)) = 50"
    and 5: "length (replicate 50 (97::nat) @ ascii ''_1'') = 52"
    by (simp_all add: ascii_def)
  from 1 2 3 4 5 show ?thesis by blast
qed

lemma updateInput_nth:
  assumes "j < length inputs"
  shows "i_key (updateInput now ident updates inputs ! j) =
     (if i_id (inputs ! j) = ident
         \<and> (\<exists>k. p_key updates = Some k \<and> k \<noteq> [] \<and> k \<noteq> i_key (inputs ! j))
      then ensureUniqueKey inputs (the (p_key updates)) (Some ident)
      else i_key (inputs ! j))"
  using assms
  by (auto simp: updateInput_def saveInputs_def nextKey_def split: option.splits)

text \<open>
  C4, as the source has it. The key \<open>ensureUniqueKey\<close> returns is not empty and consists
  of lowercase ASCII letters, digits and underscores. When no input that counts has
  the candidate (the sanitized key, \<open>input\<close> when that is empty) as its key, it is the
  candidate, and at most 50 characters long; otherwise it is the candidate followed by
  an underscore and a decimal counter from 1 on. This is the key of the input that
  \<open>addInput\<close> appends, and the key \<open>updateInput\<close> gives an input with the id when the
  update has a key that is not empty and not the key of the input; every other input,
  and every input on another update, keeps the key it has.
\<close>

theorem assignedKey_shape:
  "ensureUniqueKey inputs desiredKey excludeId \<noteq> []
   \<and> (\<forall>c \<in> set (ensureUniqueKey inputs desiredKey excludeId).
         (97 \<le> c \<and> c \<le> 122) \<or> (48 \<le> c \<and> c \<le> 57) \<or> c = 95)
   \<and> (ensureUniqueKey inputs desiredKey excludeId
         = (if sanitizeKey desiredKey = [] then ascii ''input'' else sanitizeKey desiredKey)
      \<or> (\<exists>n \<ge> 1. ensureUniqueKey inputs desiredKey excludeId
                      = (if sanitizeKey desiredKey = [] then ascii ''input'' else sanitizeKey desiredKey)
                        @ ascii ''_'' @ decimal n))
   \<and> ((\<forall>input \<in> set inputs. Some (i_id input) \<noteq> excludeId
          \<longrightarrow> i_key input \<noteq> (if sanitizeKey desiredKey = [] then ascii ''input''
                               else sanitizeKey desiredKey))
       \<longrightarrow> ensureUniqueKey inputs desiredKey excludeId
             = (if sanitizeKey desiredKey = [] then ascii ''input'' else sanitizeKey desiredKey)
           \<and> length (ensureUniqueKey inputs desiredKey excludeId) \<le> 50)
   \<and> (tabId = Some tab \<and> tab \<noteq> []
       \<longrightarrow> (\<exists>newInput.
              snd (addInput tabId now newId payload inputs) = inputs @ [newInput]
              \<and> i_key newInput
                  = ensureUniqueKey inputs
                      (orElse (readProp p_key payload) (ascii ''input_'' @ decimal (length inputs + 1)))
                      None
              \<and> i_key newInput \<noteq> []
              \<and> (\<forall>c \<in> set (i_key newInput).
                    (97 \<le> c \<and> c \<le> 122) \<or> (48 \<le> c \<and> c \<le> 57) \<or> c = 95)))
   \<and> length (updateInput now ident updates inputs) = length inputs
   \<and> (\<forall>j < length inputs.
         i_key (updateInput now ident updates inputs ! j) =
           (if i_id (inputs ! j) = ident
               \<and> (\<exists>k. p_key updates = Some k \<and> k \<noteq> [] \<and> k \<noteq> i_key (inputs ! j))
            then ensureUniqueKey inputs (the (p_key updates)) (Some ident)
            else i_key (inputs ! j))
         \<and> (i_id (inputs ! j) = ident
               \<and> (\<exists>k. p_key updates = Some k \<and> k \<noteq> [] \<and> k \<noteq> i_key (inputs ! j))
             \<longrightarrow> i_key (updateInput now ident updates inputs ! j) \<noteq> []
                 \<and> (\<forall>c \<in> set (i_key (updateInput now ident updates inputs ! j)).
                       (97 \<le> c \<and> c \<le> 122) \<or> (48 \<le> c \<and> c \<le> 57) \<or> c = 95)))"
proof -
  have key: "ensureUniqueKey ins d ex \<noteq> []
      \<and> (\<forall>c \<in> set (ensureUniqueKey ins d ex). (97 \<le> c \<and> c \<le> 122) \<or> (48 \<le> c \<and> c \<le> 57) \<or> c = 95)
      \<and> (ensureUniqueKey ins d ex = candidateKey d
         \<or> (\<exists>n \<ge> 1. ensureUniqueKey ins d ex = candidateKey d @ ascii ''_'' @ decimal n))"
    for ins d ex
  proof -
    let ?ek = "map i_key (filter (\<lambda>input. Some (i_id input) \<noteq> ex) ins)"
    let ?c = "candidateKey d"
    let ?K = "ensureUniqueKey ins d ex"
    have K: "?K = uniqueKeyLoop ?ek ?c 1 ?c" by (rule ensureUniqueKey_candidate)
    have cp: "?c \<noteq> []" "\<forall>c \<in> set ?c. isKeyChar c"
      using candidateKey_props [of d] by simp_all
    have shape: "?K = ?c \<or> (\<exists>n \<ge> 1. ?K = suffixed ?c n)"
      unfolding K by (rule uniqueKeyLoop_shape)
    have ne: "?K \<noteq> []"
      using shape cp(1) by (auto simp: suffixed_def)
    have "\<forall>c \<in> set ?K. isKeyChar c"
      using shape cp(2) suffixed_chars [of ?c] by metis
    then have ch: "\<forall>c \<in> set ?K. (97 \<le> c \<and> c \<le> 122) \<or> (48 \<le> c \<and> c \<le> 57) \<or> c = 95"
      by (simp add: isKeyChar_def)
    have u: "suffixed ?c n = ?c @ ascii ''_'' @ decimal n" for n
      by (simp add: suffixed_def ascii_def)
    from ne ch shape show ?thesis by (simp only: u) blast
  qed
  let ?c = "candidateKey desiredKey"
  let ?K = "ensureUniqueKey inputs desiredKey excludeId"
  have c: "(if sanitizeKey desiredKey = [] then ascii ''input'' else sanitizeKey desiredKey) = ?c"
    by (simp add: candidateKey_def)
  have free: "?K = ?c \<and> length ?K \<le> 50"
    if "\<forall>input \<in> set inputs. Some (i_id input) \<noteq> excludeId \<longrightarrow> i_key input \<noteq> ?c"
  proof -
    from that have "?c \<notin> set (map i_key (filter (\<lambda>input. Some (i_id input) \<noteq> excludeId) inputs))"
      by auto
    then have "?K = ?c"
      unfolding ensureUniqueKey_candidate by (rule uniqueKeyLoop_free)
    with candidateKey_props [of desiredKey] show ?thesis by simp
  qed
  have add: "\<exists>newInput.
              snd (addInput tabId now newId payload inputs) = inputs @ [newInput]
              \<and> i_key newInput
                  = ensureUniqueKey inputs
                      (orElse (readProp p_key payload) (ascii ''input_'' @ decimal (length inputs + 1)))
                      None
              \<and> i_key newInput \<noteq> []
              \<and> (\<forall>c \<in> set (i_key newInput).
                    (97 \<le> c \<and> c \<le> 122) \<or> (48 \<le> c \<and> c \<le> 57) \<or> c = 95)"
    if "tabId = Some tab \<and> tab \<noteq> []"
  proof -
    let ?d = "orElse (readProp p_key payload) (ascii ''input_'' @ decimal (length inputs + 1))"
    from that obtain x where x: "snd (addInput tabId now newId payload inputs) = inputs @ [x]"
        "i_key x = ensureUniqueKey inputs ?d None"
      by (simp add: addInput_def saveInputs_def Let_def)
    with key [of inputs ?d None] show ?thesis by auto
  qed
  have len: "length (updateInput now ident updates inputs) = length inputs"
    by (simp add: updateInput_def saveInputs_def)
  have upd: "i_key (updateInput now ident updates inputs ! j) =
           (if i_id (inputs ! j) = ident
               \<and> (\<exists>k. p_key updates = Some k \<and> k \<noteq> [] \<and> k \<noteq> i_key (inputs ! j))
            then ensureUniqueKey inputs (the (p_key updates)) (Some ident)
            else i_key (inputs ! j))
         \<and> (i_id (inputs ! j) = ident
               \<and> (\<exists>k. p_key updates = Some k \<and> k \<noteq> [] \<and> k \<noteq> i_key (inputs ! j))
             \<longrightarrow> i_key (updateInput now ident updates inputs ! j) \<noteq> []
                 \<and> (\<forall>c \<in> set (i_key (updateInput now ident updates inputs ! j)).
                       (97 \<le> c \<and> c \<le> 122) \<or> (48 \<le> c \<and> c \<le> 57) \<or> c = 95))"
    if "j < length inputs" for j
    using key [of inputs "the (p_key updates)" "Some ident"]
    by (simp only: updateInput_nth [OF that]) simp
  from key [of inputs desiredKey excludeId] free add len upd
  show ?thesis unfolding c by blast
qed

theorem assignedKey_shape_witness:
  "i_key (mkInput ''x'' ''a'' None) \<noteq> ascii ''hello_world''
   \<and> sanitizeKey (ascii ''Hello  World!'') = ascii ''hello_world''
   \<and> ensureUniqueKey [mkInput ''x'' ''a'' None] (ascii ''Hello  World!'') None = ascii ''hello_world''
   \<and> map i_key (snd (addInput (Some (ascii ''tab'')) (ascii ''now'') (ascii ''z'') None
                        [mkInput ''x'' ''a'' None]))
      = [ascii ''a'', ascii ''input_2'']
   \<and> map i_key (updateInput (ascii ''now'') (ascii ''x'')
                   (noUpdates\<lparr>p_key := Some (ascii ''Hello  World!'')\<rparr>) [mkInput ''x'' ''a'' None])
      = [ascii ''hello_world'']"
proof -
  let ?ins = "[mkInput ''x'' ''a'' None]"
  let ?u = "noUpdates\<lparr>p_key := Some (ascii ''Hello  World!'')\<rparr>"
  have s: "sanitizeKey (ascii ''Hello  World!'') = ascii ''hello_world''"
    by (simp add: sanitizeKey_def toLowerCase_def toLowerCaseUnit_def
        isWhiteSpace_def isKeyChar_def ascii_def)
  have c: "(if sanitizeKey (ascii ''Hello  World!'') = [] then ascii ''input''
            else sanitizeKey (ascii ''Hello  World!'')) = ascii ''hello_world''"
    by (simp add: s) (simp add: ascii_def)
  have k: "i_key (mkInput ''x'' ''a'' None) \<noteq> ascii ''hello_world''"
    by (simp add: mkInput_def ascii_def)
  then have h: "\<forall>input \<in> set ?ins. Some (i_id input) \<noteq> None
       \<longrightarrow> i_key input \<noteq> (if sanitizeKey (ascii ''Hello  World!'') = [] then ascii ''input''
            else sanitizeKey (ascii ''Hello  World!''))"
    by (simp only: c) simp
  have t: "Some (ascii ''tab'') = Some (ascii ''tab'') \<and> ascii ''tab'' \<noteq> []"
    by (simp add: ascii_def)
  have e: "ensureUniqueKey ?ins (ascii ''input_2'') None = ascii ''input_2''"
    by (simp add: ensureUniqueKey_def candidateKey_def sanitizeKey_def toLowerCase_def toLowerCaseUnit_def
        isWhiteSpace_def isKeyChar_def uniqueKeyLoop.simps mkInput_def ascii_def)
  have e2: "ensureUniqueKey ?ins (ascii ''Hello  World!'') (Some (ascii ''x'')) = ascii ''hello_world''"
    by (simp add: ensureUniqueKey_def candidateKey_def sanitizeKey_def toLowerCase_def toLowerCaseUnit_def
        isWhiteSpace_def isKeyChar_def uniqueKeyLoop.simps mkInput_def ascii_def)
  have d: "orElse (readProp p_key None) (ascii ''input_'' @ decimal (length ?ins + 1)) = ascii ''input_2''"
    by (simp add: readProp_def decimal.simps ascii_def)
  have j: "i_id (?ins ! 0) = ascii ''x''
      \<and> (\<exists>k. p_key ?u = Some k \<and> k \<noteq> [] \<and> k \<noteq> i_key (?ins ! 0))"
    by (simp add: mkInput_def ascii_def)
  note th = assignedKey_shape [where inputs = ?ins and desiredKey = "ascii ''Hello  World!''"
      and excludeId = None and tabId = "Some (ascii ''tab'')" and tab = "ascii ''tab''"
      and now = "ascii ''now''" and newId = "ascii ''z''" and payload = None
      and ident = "ascii ''x''" and updates = ?u]
  from th h have 1: "ensureUniqueKey ?ins (ascii ''Hello  World!'') None = ascii ''hello_world''"
    unfolding c by blast
  from th t obtain newInput where
    "snd (addInput (Some (ascii ''tab'')) (ascii ''now'') (ascii ''z'') None ?ins) = ?ins @ [newInput]"
    "i_key newInput = ascii ''input_2''"
    unfolding d e by blast
  then have 2: "map i_key (snd (addInput (Some (ascii ''tab'')) (ascii ''now'') (ascii ''z'') None ?ins))
      = [ascii ''a'', ascii ''input_2'']"
    by (simp add: mkInput_def)
  from th have l: "length (updateInput (ascii ''now'') (ascii ''x'') ?u ?ins) = length ?ins"
    and "\<forall>j < length ?ins. i_key (updateInput (ascii ''now'') (ascii ''x'') ?u ?ins ! j) =
           (if i_id (?ins ! j) = ascii ''x''
               \<and> (\<exists>k. p_key ?u = Some k \<and> k \<noteq> [] \<and> k \<noteq> i_key (?ins ! j))
            then ensureUniqueKey ?ins (the (p_key ?u)) (Some (ascii ''x''))
            else i_key (?ins ! j))"
    by blast+
  then have "i_key (updateInput (ascii ''now'') (ascii ''x'') ?u ?ins ! 0) =
           (if i_id (?ins ! 0) = ascii ''x''
               \<and> (\<exists>k. p_key ?u = Some k \<and> k \<noteq> [] \<and> k \<noteq> i_key (?ins ! 0))
            then ensureUniqueKey ?ins (the (p_key ?u)) (Some (ascii ''x''))
            else i_key (?ins ! 0))"
    by simp
  with j have "i_key (updateInput (ascii ''now'') (ascii ''x'') ?u ?ins ! 0) = ascii ''hello_world''"
    by (simp only: if_True) (simp add: e2)
  moreover from l obtain y where "updateInput (ascii ''now'') (ascii ''x'') ?u ?ins = [y]"
    by (cases "updateInput (ascii ''now'') (ascii ''x'') ?u ?ins") auto
  ultimately have 3: "map i_key (updateInput (ascii ''now'') (ascii ''x'') ?u ?ins) = [ascii ''hello_world'']"
    by simp
  from k s 1 2 3 show ?thesis by simp
qed

section \<open>The responses of the route\<close>

text \<open>The query \<open>?tabId=\<close> has the parameter, with an empty value, and is answered 400.\<close>

theorem GET_counterexample:
  "(Some [] :: jsstring option) \<noteq> None
   \<and> GET (Some []) (Collection (\<lambda>tab. None))
       = \<lparr>status = 400, body = ErrorBody (ascii ''tabId is required'')\<rparr>"
  by (simp add: GET_def jsonStatus_def)

text \<open>
  C7, as the source has it. \<open>GET\<close> answers 400 exactly when the query has no \<open>tabId\<close> or
  an empty one. For another \<open>tabId\<close> it answers 500 when the store throws; otherwise
  \<open>{ tabId, inputs: [] }\<close> when no document is stored for the tab, and the inputs of the
  document (\<open>[]\<close> when it has none) when one is.
\<close>

theorem GET_responses:
  "(status (GET tabId store) = 400 \<longleftrightarrow> tabId = None \<or> tabId = Some [])
   \<and> (tabId = Some tab \<and> tab \<noteq> [] \<longrightarrow>
        (store = Unavailable \<longrightarrow> status (GET tabId store) = 500)
        \<and> (\<forall>collection. store = Collection collection \<longrightarrow>
              (collection tab = None \<longrightarrow>
                 GET tabId store = \<lparr>status = 200, body = InputsBody tab []\<rparr>)
              \<and> (\<forall>doc. collection tab = Some doc \<longrightarrow>
                    GET tabId store =
                      \<lparr>status = 200,
                       body = InputsBody tab (case d_inputs doc of None \<Rightarrow> [] | Some inputs \<Rightarrow> inputs)\<rparr>)))"
  by (auto simp: GET_def json_def jsonStatus_def split: option.splits storage.splits)

theorem GET_responses_witness:
  "GET (Some (ascii ''t1''))
       (Collection (Map.empty(ascii ''t1'' \<mapsto>
          \<lparr>d_tabId = ascii ''t1'', d_inputs = Some [mkInput ''x'' ''a'' (Some 0)], d_updatedAt = None\<rparr>)))
     = \<lparr>status = 200, body = InputsBody (ascii ''t1'') [mkInput ''x'' ''a'' (Some 0)]\<rparr>
   \<and> GET (Some (ascii ''t2''))
       (Collection (Map.empty(ascii ''t1'' \<mapsto>
          \<lparr>d_tabId = ascii ''t1'', d_inputs = Some [mkInput ''x'' ''a'' (Some 0)], d_updatedAt = None\<rparr>)))
     = \<lparr>status = 200, body = InputsBody (ascii ''t2'') []\<rparr>
   \<and> status (GET (Some (ascii ''t1'')) Unavailable) = 500
   \<and> status (GET None Unavailable) = 400"
proof -
  let ?doc = "\<lparr>d_tabId = ascii ''t1'', d_inputs = Some [mkInput ''x'' ''a'' (Some 0)], d_updatedAt = None\<rparr>"
  let ?c = "Map.empty(ascii ''t1'' \<mapsto> ?doc)"
  have n1: "ascii ''t1'' \<noteq> []" and n2: "ascii ''t2'' \<noteq> []" by (simp_all add: ascii_def)
  have c1: "?c (ascii ''t1'') = Some ?doc" by simp
  have c2: "?c (ascii ''t2'') = None" by (simp add: ascii_def)
  from GET_responses [of "Some (ascii ''t1'')" "Collection ?c" "ascii ''t1''"] n1 c1
  have 1: "GET (Some (ascii ''t1'')) (Collection ?c)
     = \<lparr>status = 200, body = InputsBody (ascii ''t1'') [mkInput ''x'' ''a'' (Some 0)]\<rparr>"
    by simp
  from GET_responses [of "Some (ascii ''t2'')" "Collection ?c" "ascii ''t2''"] n2 c2
  have 2: "GET (Some (ascii ''t2'')) (Collection ?c)
     = \<lparr>status = 200, body = InputsBody (ascii ''t2'') []\<rparr>"
    by simp
  from GET_responses [of "Some (ascii ''t1'')" Unavailable "ascii ''t1''"] n1
  have 3: "status (GET (Some (ascii ''t1'')) Unavailable) = 500" by simp
  from GET_responses [of None Unavailable]
  have 4: "status (GET None Unavailable) = 400" by simp
  from 1 2 3 4 show ?thesis by blast
qed

lemma mapIndexed_nth:
  "j < length xs \<Longrightarrow> mapIndexed f xs ! j = f j (xs ! j)"
  by (simp add: mapIndexed_def nth_enumerate_eq)

lemma those_None_iff: "those xs = None \<longleftrightarrow> None \<in> set xs"
  by (induction xs) (auto split: option.splits)

lemma those_Some_iff: "those xs = Some ys \<longleftrightarrow> xs = map Some ys"
proof (induction xs arbitrary: ys)
  case Nil
  then show ?case by auto
next
  case (Cons x xs)
  then show ?case by (cases x; cases ys) (auto split: option.splits)
qed

lemma sanitizedInput_None: "sanitizedInput tab now index input = None \<longleftrightarrow> input = JNull"
  by (cases input) (simp_all add: sanitizedInput_def readProperty_def)

lemma mapIndexed_None:
  "None \<in> set (mapIndexed (sanitizedInput tab now) xs) \<longleftrightarrow> JNull \<in> set xs"
proof
  assume "None \<in> set (mapIndexed (sanitizedInput tab now) xs)"
  then obtain j where "j < length xs" "mapIndexed (sanitizedInput tab now) xs ! j = None"
    by (metis in_set_conv_nth length_mapIndexed)
  then have "xs ! j = JNull" by (simp add: mapIndexed_nth sanitizedInput_None)
  with \<open>j < length xs\<close> show "JNull \<in> set xs" by (metis nth_mem)
next
  assume "JNull \<in> set xs"
  then obtain j where j: "j < length xs" "xs ! j = JNull" by (metis in_set_conv_nth)
  then have "mapIndexed (sanitizedInput tab now) xs ! j = None"
    by (simp add: mapIndexed_nth sanitizedInput_None)
  with j(1) show "None \<in> set (mapIndexed (sanitizedInput tab now) xs)"
    by (metis length_mapIndexed nth_mem)
qed

text \<open>The properties of the object made of an element that is not \<open>null\<close>.\<close>

lemma sanitizedInput_props:
  assumes "sanitizedInput tab now index input = Some v"
  shows "\<exists>props. v = JObject props
     \<and> props (ascii ''tabId'') = Some tab
     \<and> props (ascii ''order'') = Some (JNumber (Finite (of_nat index)))
     \<and> props (ascii ''updatedAt'') = Some (JString now)
     \<and> props (ascii ''createdAt'') =
         Some (case input of
                 JObject given \<Rightarrow>
                   (case given (ascii ''createdAt'') of
                      None \<Rightarrow> JString now
                    | Some created \<Rightarrow> if truthyValue (Some created) then created else JString now)
               | _ \<Rightarrow> JString now)
     \<and> (\<forall>name. name \<notin> {ascii ''tabId'', ascii ''order'', ascii ''updatedAt'', ascii ''createdAt''}
           \<longrightarrow> props name = ownProps input name)"
proof -
  have n: "ascii ''tabId'' \<noteq> ascii ''order''" "ascii ''tabId'' \<noteq> ascii ''updatedAt''"
    "ascii ''tabId'' \<noteq> ascii ''createdAt''" "ascii ''order'' \<noteq> ascii ''updatedAt''"
    "ascii ''order'' \<noteq> ascii ''createdAt''" "ascii ''updatedAt'' \<noteq> ascii ''createdAt''"
    by (simp_all add: ascii_def)
  from assms n show ?thesis
    by (cases input) (auto simp: sanitizedInput_def readProperty_def split: option.splits)
qed

text \<open>
  A body whose \<open>tabId\<close> is the empty string and whose \<open>inputs\<close> is an array: \<open>tabId\<close> is
  not missing, and the answer is 400 with no call of \<open>updateOne\<close>. A body with the
  \<open>tabId\<close> \<open>t1\<close> and the inputs \<open>[null]\<close>: the answer is 500, with no call of \<open>updateOne\<close>
  either, on a database that would not throw.
\<close>

theorem POST_counterexample:
  "POST (Some (JObject (Map.empty(ascii ''tabId'' \<mapsto> JString [],
                                 ascii ''inputs'' \<mapsto> JArray [JObject Map.empty]))))
         (ascii ''now'') (ascii ''date'') UpdateOneReturns
       = (\<lparr>status = 400, body = ErrorBody (ascii ''tabId is required'')\<rparr>, None)
   \<and> POST (Some (JObject (Map.empty(ascii ''tabId'' \<mapsto> JString (ascii ''t1''),
                                   ascii ''inputs'' \<mapsto> JArray [JNull]))))
         (ascii ''now'') (ascii ''date'') UpdateOneReturns
       = (\<lparr>status = 500, body = ErrorBody (ascii ''Failed to save tab inputs'')\<rparr>, None)"
  by (simp add: POST_def readProperty_def sanitizedInput_def mapIndexed_def jsonStatus_def
      ascii_def)

text \<open>
  C10, as the source has it. \<open>POST\<close> answers 500, and does not call \<open>updateOne\<close>, when
  \<open>request.json()\<close> throws or gives \<open>null\<close>. It answers 400, and does not call
  \<open>updateOne\<close>, when the body is no object, or has no \<open>tabId\<close> or a falsy one (\<open>null\<close>,
  \<open>false\<close>, a zero, the empty string), or when its \<open>inputs\<close> is not an array. For a body
  with a truthy \<open>tabId\<close> and an array \<open>inputs\<close> it answers 500, and does not call
  \<open>updateOne\<close>, when \<open>getDb\<close> throws or an element of the array is \<open>null\<close>. Otherwise it
  calls \<open>updateOne\<close>, as an upsert under the filter \<open>{ tabId }\<close>, to set \<open>tabId\<close>, the date
  \<open>updatedAt\<close> and \<open>inputs\<close>: one object for each element submitted, in the order
  submitted, with \<open>tabId\<close> the \<open>tabId\<close> of the request, \<open>order\<close> the index of the element,
  \<open>updatedAt\<close> the time stamp, \<open>createdAt\<close> that of the element when it is truthy and
  the time stamp otherwise, and under every other name the own property of the
  element; it answers success when \<open>updateOne\<close> returns and 500 when it throws.
\<close>

theorem POST_responses:
  "(requestJson = None \<or> requestJson = Some JNull \<longrightarrow>
      POST requestJson now nowDate db
        = (\<lparr>status = 500, body = ErrorBody (ascii ''Failed to save tab inputs'')\<rparr>, None))
   \<and> (requestJson = Some requestBody \<and> requestBody \<noteq> JNull
        \<and> ((\<forall>props. requestBody \<noteq> JObject props)
            \<or> (\<exists>props. requestBody = JObject props
                  \<and> props (ascii ''tabId'')
                      \<in> {None, Some JNull, Some (JBool False), Some (JNumber (Finite 0)),
                          Some (JNumber NegZero), Some (JString [])})) \<longrightarrow>
      POST requestJson now nowDate db
        = (\<lparr>status = 400, body = ErrorBody (ascii ''tabId is required'')\<rparr>, None))
   \<and> (requestJson = Some (JObject props) \<and> props (ascii ''tabId'') = Some tab
        \<and> Some tab \<notin> {Some JNull, Some (JBool False), Some (JNumber (Finite 0)),
                        Some (JNumber NegZero), Some (JString [])} \<longrightarrow>
        ((\<forall>xs. props (ascii ''inputs'') \<noteq> Some (JArray xs)) \<longrightarrow>
           POST requestJson now nowDate db
             = (\<lparr>status = 400, body = ErrorBody (ascii ''inputs must be an array'')\<rparr>, None))
        \<and> (\<forall>xs. props (ascii ''inputs'') = Some (JArray xs) \<longrightarrow>
              (db = GetDbThrows \<or> JNull \<in> set xs \<longrightarrow>
                 POST requestJson now nowDate db
                   = (\<lparr>status = 500, body = ErrorBody (ascii ''Failed to save tab inputs'')\<rparr>, None))
              \<and> (db \<noteq> GetDbThrows \<and> JNull \<notin> set xs \<longrightarrow>
                   (\<exists>stored.
                      POST requestJson now nowDate db
                        = (if db = UpdateOneThrows
                           then \<lparr>status = 500, body = ErrorBody (ascii ''Failed to save tab inputs'')\<rparr>
                           else \<lparr>status = 200, body = SuccessBody\<rparr>,
                           Some \<lparr>filter_tabId = tab, set_tabId = tab, set_inputs = stored,
                                 set_updatedAt = nowDate, upsert = True\<rparr>)
                      \<and> length stored = length xs
                      \<and> (\<forall>j < length xs.
                            \<exists>stored_j. stored ! j = JObject stored_j
                              \<and> stored_j (ascii ''tabId'') = Some tab
                              \<and> stored_j (ascii ''order'') = Some (JNumber (Finite (of_nat j)))
                              \<and> stored_j (ascii ''updatedAt'') = Some (JString now)
                              \<and> stored_j (ascii ''createdAt'') =
                                  Some (case xs ! j of
                                          JObject given \<Rightarrow>
                                            (case given (ascii ''createdAt'') of
                                               None \<Rightarrow> JString now
                                             | Some created \<Rightarrow>
                                                 if truthyValue (Some created) then created
                                                 else JString now)
                                        | _ \<Rightarrow> JString now)
                              \<and> (\<forall>name. name \<notin> {ascii ''tabId'', ascii ''order'',
                                                   ascii ''updatedAt'', ascii ''createdAt''}
                                    \<longrightarrow> stored_j name = ownProps (xs ! j) name))))))"
proof -
  have 1: "POST requestJson now nowDate db
        = (\<lparr>status = 500, body = ErrorBody (ascii ''Failed to save tab inputs'')\<rparr>, None)"
    if "requestJson = None \<or> requestJson = Some JNull"
    using that by (auto simp: POST_def readProperty_def jsonStatus_def)
  have 2: "POST requestJson now nowDate db
        = (\<lparr>status = 400, body = ErrorBody (ascii ''tabId is required'')\<rparr>, None)"
    if a: "requestJson = Some requestBody \<and> requestBody \<noteq> JNull
        \<and> ((\<forall>props. requestBody \<noteq> JObject props)
            \<or> (\<exists>props. requestBody = JObject props
                  \<and> props (ascii ''tabId'')
                      \<in> {None, Some JNull, Some (JBool False), Some (JNumber (Finite 0)),
                          Some (JNumber NegZero), Some (JString [])}))"
    using a by (cases requestBody) (auto simp: POST_def readProperty_def jsonStatus_def)
  have 3: "((\<forall>xs. props (ascii ''inputs'') \<noteq> Some (JArray xs)) \<longrightarrow>
           POST requestJson now nowDate db
             = (\<lparr>status = 400, body = ErrorBody (ascii ''inputs must be an array'')\<rparr>, None))
      \<and> (\<forall>xs. props (ascii ''inputs'') = Some (JArray xs) \<longrightarrow>
              (db = GetDbThrows \<or> JNull \<in> set xs \<longrightarrow>
                 POST requestJson now nowDate db
                   = (\<lparr>status = 500, body = ErrorBody (ascii ''Failed to save tab inputs'')\<rparr>, None))
              \<and> (db \<noteq> GetDbThrows \<and> JNull \<notin> set xs \<longrightarrow>
                   (\<exists>stored.
                      POST requestJson now nowDate db
                        = (if db = UpdateOneThrows
                           then \<lparr>status = 500, body = ErrorBody (ascii ''Failed to save tab inputs'')\<rparr>
                           else \<lparr>status = 200, body = SuccessBody\<rparr>,
                           Some \<lparr>filter_tabId = tab, set_tabId = tab, set_inputs = stored,
                                 set_updatedAt = nowDate, upsert = True\<rparr>)
                      \<and> length stored = length xs
                      \<and> (\<forall>j < length xs.
                            \<exists>stored_j. stored ! j = JObject stored_j
                              \<and> stored_j (ascii ''tabId'') = Some tab
                              \<and> stored_j (ascii ''order'') = Some (JNumber (Finite (of_nat j)))
                              \<and> stored_j (ascii ''updatedAt'') = Some (JString now)
                              \<and> stored_j (ascii ''createdAt'') =
                                  Some (case xs ! j of
                                          JObject given \<Rightarrow>
                                            (case given (ascii ''createdAt'') of
                                               None \<Rightarrow> JString now
                                             | Some created \<Rightarrow>
                                                 if truthyValue (Some created) then created
                                                 else JString now)
                                        | _ \<Rightarrow> JString now)
                              \<and> (\<forall>name. name \<notin> {ascii ''tabId'', ascii ''order'',
                                                   ascii ''updatedAt'', ascii ''createdAt''}
                                    \<longrightarrow> stored_j name = ownProps (xs ! j) name)))))"
    if a: "requestJson = Some (JObject props) \<and> props (ascii ''tabId'') = Some tab
        \<and> Some tab \<notin> {Some JNull, Some (JBool False), Some (JNumber (Finite 0)),
                        Some (JNumber NegZero), Some (JString [])}"
  proof (rule conjI)
    from a have t: "truthyValue (Some tab)"
      by (cases tab) auto
    from a have r: "readProperty (JObject props) (ascii ''tabId'') = Some (Some tab)"
      "readProperty (JObject props) (ascii ''inputs'') = Some (props (ascii ''inputs''))"
      by (simp_all add: readProperty_def)
    show "(\<forall>xs. props (ascii ''inputs'') \<noteq> Some (JArray xs)) \<longrightarrow>
             POST requestJson now nowDate db
               = (\<lparr>status = 400, body = ErrorBody (ascii ''inputs must be an array'')\<rparr>, None)"
      using a t r by (auto simp: POST_def jsonStatus_def split: option.splits jsvalue.splits)
    show "\<forall>xs. props (ascii ''inputs'') = Some (JArray xs) \<longrightarrow>
                (db = GetDbThrows \<or> JNull \<in> set xs \<longrightarrow>
                   POST requestJson now nowDate db
                     = (\<lparr>status = 500, body = ErrorBody (ascii ''Failed to save tab inputs'')\<rparr>, None))
                \<and> (db \<noteq> GetDbThrows \<and> JNull \<notin> set xs \<longrightarrow>
                     (\<exists>stored.
                        POST requestJson now nowDate db
                          = (if db = UpdateOneThrows
                             then \<lparr>status = 500, body = ErrorBody (ascii ''Failed to save tab inputs'')\<rparr>
                             else \<lparr>status = 200, body = SuccessBody\<rparr>,
                             Some \<lparr>filter_tabId = tab, set_tabId = tab, set_inputs = stored,
                                   set_updatedAt = nowDate, upsert = True\<rparr>)
                        \<and> length stored = length xs
                        \<and> (\<forall>j < length xs.
                              \<exists>stored_j. stored ! j = JObject stored_j
                                \<and> stored_j (ascii ''tabId'') = Some tab
                                \<and> stored_j (ascii ''order'') = Some (JNumber (Finite (of_nat j)))
                                \<and> stored_j (ascii ''updatedAt'') = Some (JString now)
                                \<and> stored_j (ascii ''createdAt'') =
                                    Some (case xs ! j of
                                            JObject given \<Rightarrow>
                                              (case given (ascii ''createdAt'') of
                                                 None \<Rightarrow> JString now
                                               | Some created \<Rightarrow>
                                                   if truthyValue (Some created) then created
                                                   else JString now)
                                          | _ \<Rightarrow> JString now)
                                \<and> (\<forall>name. name \<notin> {ascii ''tabId'', ascii ''order'',
                                                     ascii ''updatedAt'', ascii ''createdAt''}
                                      \<longrightarrow> stored_j name = ownProps (xs ! j) name))))"
    proof (intro allI impI conjI)
      fix xs
      assume xs: "props (ascii ''inputs'') = Some (JArray xs)"
      assume "db = GetDbThrows \<or> JNull \<in> set xs"
      then have "db = GetDbThrows \<or> those (mapIndexed (sanitizedInput tab now) xs) = None"
        by (simp add: those_None_iff mapIndexed_None)
      then show "POST requestJson now nowDate db
          = (\<lparr>status = 500, body = ErrorBody (ascii ''Failed to save tab inputs'')\<rparr>, None)"
        using a t r xs by (auto simp: POST_def jsonStatus_def)
    next
      fix xs
      assume xs: "props (ascii ''inputs'') = Some (JArray xs)"
      assume d: "db \<noteq> GetDbThrows \<and> JNull \<notin> set xs"
      then have "those (mapIndexed (sanitizedInput tab now) xs) \<noteq> None"
        by (simp add: those_None_iff mapIndexed_None)
      then obtain stored where s: "those (mapIndexed (sanitizedInput tab now) xs) = Some stored"
        by auto
      then have m: "mapIndexed (sanitizedInput tab now) xs = map Some stored"
        by (simp only: those_Some_iff)
      then have "length (mapIndexed (sanitizedInput tab now) xs) = length stored" by simp
      then have l: "length stored = length xs" by (simp add: length_mapIndexed)
      have p: "POST requestJson now nowDate db
          = (if db = UpdateOneThrows
             then \<lparr>status = 500, body = ErrorBody (ascii ''Failed to save tab inputs'')\<rparr>
             else \<lparr>status = 200, body = SuccessBody\<rparr>,
             Some \<lparr>filter_tabId = tab, set_tabId = tab, set_inputs = stored,
                   set_updatedAt = nowDate, upsert = True\<rparr>)"
        using a t r xs d s by (simp add: POST_def jsonStatus_def json_def Let_def)
      have e: "\<exists>stored_j. stored ! j = JObject stored_j
                  \<and> stored_j (ascii ''tabId'') = Some tab
                  \<and> stored_j (ascii ''order'') = Some (JNumber (Finite (of_nat j)))
                  \<and> stored_j (ascii ''updatedAt'') = Some (JString now)
                  \<and> stored_j (ascii ''createdAt'') =
                      Some (case xs ! j of
                              JObject given \<Rightarrow>
                                (case given (ascii ''createdAt'') of
                                   None \<Rightarrow> JString now
                                 | Some created \<Rightarrow>
                                     if truthyValue (Some created) then created
                                     else JString now)
                            | _ \<Rightarrow> JString now)
                  \<and> (\<forall>name. name \<notin> {ascii ''tabId'', ascii ''order'',
                                       ascii ''updatedAt'', ascii ''createdAt''}
                        \<longrightarrow> stored_j name = ownProps (xs ! j) name)"
        if j: "j < length xs" for j
      proof -
        from j have "mapIndexed (sanitizedInput tab now) xs ! j = sanitizedInput tab now j (xs ! j)"
          by (rule mapIndexed_nth)
        moreover from j l have "map Some stored ! j = Some (stored ! j)" by simp
        ultimately have "sanitizedInput tab now j (xs ! j) = Some (stored ! j)"
          by (simp only: m)
        then show ?thesis by (rule sanitizedInput_props)
      qed
      from p l e show "\<exists>stored.
          POST requestJson now nowDate db
            = (if db = UpdateOneThrows
               then \<lparr>status = 500, body = ErrorBody (ascii ''Failed to save tab inputs'')\<rparr>
               else \<lparr>status = 200, body = SuccessBody\<rparr>,
               Some \<lparr>filter_tabId = tab, set_tabId = tab, set_inputs = stored,
                     set_updatedAt = nowDate, upsert = True\<rparr>)
          \<and> length stored = length xs
          \<and> (\<forall>j < length xs.
                \<exists>stored_j. stored ! j = JObject stored_j
                  \<and> stored_j (ascii ''tabId'') = Some tab
                  \<and> stored_j (ascii ''order'') = Some (JNumber (Finite (of_nat j)))
                  \<and> stored_j (ascii ''updatedAt'') = Some (JString now)
                  \<and> stored_j (ascii ''createdAt'') =
                      Some (case xs ! j of
                              JObject given \<Rightarrow>
                                (case given (ascii ''createdAt'') of
                                   None \<Rightarrow> JString now
                                 | Some created \<Rightarrow>
                                     if truthyValue (Some created) then created
                                     else JString now)
                            | _ \<Rightarrow> JString now)
                  \<and> (\<forall>name. name \<notin> {ascii ''tabId'', ascii ''order'',
                                       ascii ''updatedAt'', ascii ''createdAt''}
                        \<longrightarrow> stored_j name = ownProps (xs ! j) name))"
        by blast
    qed
  qed
  from 1 2 3 show ?thesis by blast
qed

theorem POST_responses_witness:
  "fst (POST (Some (JObject (Map.empty(
            ascii ''tabId'' \<mapsto> JString (ascii ''t1''),
            ascii ''inputs'' \<mapsto> JArray
              [JObject (Map.empty(ascii ''key'' \<mapsto> JString (ascii ''a''),
                                  ascii ''tabId'' \<mapsto> JString (ascii ''other''),
                                  ascii ''order'' \<mapsto> JNumber (Finite 7),
                                  ascii ''createdAt'' \<mapsto> JString (ascii ''2024''))),
               JObject (Map.empty(ascii ''key'' \<mapsto> JString (ascii ''b'')))]))))
          (ascii ''now'') (ascii ''date'') UpdateOneReturns)
     = \<lparr>status = 200, body = SuccessBody\<rparr>
   \<and> map_option (\<lambda>call. (filter_tabId call, set_tabId call, set_updatedAt call, upsert call))
       (snd (POST (Some (JObject (Map.empty(
            ascii ''tabId'' \<mapsto> JString (ascii ''t1''),
            ascii ''inputs'' \<mapsto> JArray
              [JObject (Map.empty(ascii ''key'' \<mapsto> JString (ascii ''a''),
                                  ascii ''tabId'' \<mapsto> JString (ascii ''other''),
                                  ascii ''order'' \<mapsto> JNumber (Finite 7),
                                  ascii ''createdAt'' \<mapsto> JString (ascii ''2024''))),
               JObject (Map.empty(ascii ''key'' \<mapsto> JString (ascii ''b'')))]))))
          (ascii ''now'') (ascii ''date'') UpdateOneReturns))
     = Some (JString (ascii ''t1''), JString (ascii ''t1''), ascii ''date'', True)
   \<and> map_option
        (\<lambda>call. map (\<lambda>v. (ownProps v (ascii ''key''), ownProps v (ascii ''tabId''),
                           ownProps v (ascii ''order''), ownProps v (ascii ''createdAt''),
                           ownProps v (ascii ''updatedAt''))) (set_inputs call))
       (snd (POST (Some (JObject (Map.empty(
            ascii ''tabId'' \<mapsto> JString (ascii ''t1''),
            ascii ''inputs'' \<mapsto> JArray
              [JObject (Map.empty(ascii ''key'' \<mapsto> JString (ascii ''a''),
                                  ascii ''tabId'' \<mapsto> JString (ascii ''other''),
                                  ascii ''order'' \<mapsto> JNumber (Finite 7),
                                  ascii ''createdAt'' \<mapsto> JString (ascii ''2024''))),
               JObject (Map.empty(ascii ''key'' \<mapsto> JString (ascii ''b'')))]))))
          (ascii ''now'') (ascii ''date'') UpdateOneReturns))
     = Some [(Some (JString (ascii ''a'')), Some (JString (ascii ''t1'')),
              Some (JNumber (Finite 0)), Some (JString (ascii ''2024'')),
              Some (JString (ascii ''now''))),
             (Some (JString (ascii ''b'')), Some (JString (ascii ''t1'')),
              Some (JNumber (Finite 1)), Some (JString (ascii ''now'')),
              Some (JString (ascii ''now'')))]
   \<and> POST (Some (JArray [])) (ascii ''now'') (ascii ''date'') UpdateOneReturns
     = (\<lparr>status = 400, body = ErrorBody (ascii ''tabId is required'')\<rparr>, None)
   \<and> POST (Some JNull) (ascii ''now'') (ascii ''date'') UpdateOneReturns
     = (\<lparr>status = 500, body = ErrorBody (ascii ''Failed to save tab inputs'')\<rparr>, None)"
proof -
  let ?e0 = "JObject (Map.empty(ascii ''key'' \<mapsto> JString (ascii ''a''),
                                  ascii ''tabId'' \<mapsto> JString (ascii ''other''),
                                  ascii ''order'' \<mapsto> JNumber (Finite 7),
                                  ascii ''createdAt'' \<mapsto> JString (ascii ''2024'')))"
  let ?e1 = "JObject (Map.empty(ascii ''key'' \<mapsto> JString (ascii ''b'')))"
  let ?props = "Map.empty(ascii ''tabId'' \<mapsto> JString (ascii ''t1''),
                          ascii ''inputs'' \<mapsto> JArray [?e0, ?e1])"
  let ?P = "POST (Some (JObject ?props)) (ascii ''now'') (ascii ''date'') UpdateOneReturns"
  have h: "Some (JObject ?props) = Some (JObject ?props)
      \<and> ?props (ascii ''tabId'') = Some (JString (ascii ''t1''))
      \<and> Some (JString (ascii ''t1'')) \<notin> {Some JNull, Some (JBool False), Some (JNumber (Finite 0)),
                        Some (JNumber NegZero), Some (JString [])}"
    by (simp add: ascii_def)
  have i: "?props (ascii ''inputs'') = Some (JArray [?e0, ?e1])"
    by (simp add: ascii_def)
  have d: "UpdateOneReturns \<noteq> GetDbThrows \<and> JNull \<notin> set [?e0, ?e1]"
    by simp
  note th = POST_responses [where requestJson = "Some (JObject ?props)" and props = ?props
      and tab = "JString (ascii ''t1'')" and now = "ascii ''now''" and nowDate = "ascii ''date''"
      and db = UpdateOneReturns]
  from th h have "\<forall>xs. ?props (ascii ''inputs'') = Some (JArray xs) \<longrightarrow>
      (UpdateOneReturns \<noteq> GetDbThrows \<and> JNull \<notin> set xs \<longrightarrow>
         (\<exists>stored.
            ?P = (if UpdateOneReturns = UpdateOneThrows
                  then \<lparr>status = 500, body = ErrorBody (ascii ''Failed to save tab inputs'')\<rparr>
                  else \<lparr>status = 200, body = SuccessBody\<rparr>,
                  Some \<lparr>filter_tabId = JString (ascii ''t1''), set_tabId = JString (ascii ''t1''),
                        set_inputs = stored, set_updatedAt = ascii ''date'', upsert = True\<rparr>)
            \<and> length stored = length xs
            \<and> (\<forall>j < length xs.
                  \<exists>stored_j. stored ! j = JObject stored_j
                    \<and> stored_j (ascii ''tabId'') = Some (JString (ascii ''t1''))
                    \<and> stored_j (ascii ''order'') = Some (JNumber (Finite (of_nat j)))
                    \<and> stored_j (ascii ''updatedAt'') = Some (JString (ascii ''now''))
                    \<and> stored_j (ascii ''createdAt'') =
                        Some (case xs ! j of
                                JObject given \<Rightarrow>
                                  (case given (ascii ''createdAt'') of
                                     None \<Rightarrow> JString (ascii ''now'')
                                   | Some created \<Rightarrow>
                                       if truthyValue (Some created) then created
                                       else JString (ascii ''now''))
                              | _ \<Rightarrow> JString (ascii ''now''))
                    \<and> (\<forall>name. name \<notin> {ascii ''tabId'', ascii ''order'',
                                         ascii ''updatedAt'', ascii ''createdAt''}
                          \<longrightarrow> stored_j name = ownProps (xs ! j) name))))"
    by blast
  with i d obtain stored where
    p: "?P = (\<lparr>status = 200, body = SuccessBody\<rparr>,
              Some \<lparr>filter_tabId = JString (ascii ''t1''), set_tabId = JString (ascii ''t1''),
                    set_inputs = stored, set_updatedAt = ascii ''date'', upsert = True\<rparr>)"
    and l: "length stored = length [?e0, ?e1]"
    and e: "\<forall>j < length [?e0, ?e1].
              \<exists>stored_j. stored ! j = JObject stored_j
                \<and> stored_j (ascii ''tabId'') = Some (JString (ascii ''t1''))
                \<and> stored_j (ascii ''order'') = Some (JNumber (Finite (of_nat j)))
                \<and> stored_j (ascii ''updatedAt'') = Some (JString (ascii ''now''))
                \<and> stored_j (ascii ''createdAt'') =
                    Some (case [?e0, ?e1] ! j of
                            JObject given \<Rightarrow>
                              (case given (ascii ''createdAt'') of
                                 None \<Rightarrow> JString (ascii ''now'')
                               | Some created \<Rightarrow>
                                   if truthyValue (Some created) then created
                                   else JString (ascii ''now''))
                          | _ \<Rightarrow> JString (ascii ''now''))
                \<and> (\<forall>name. name \<notin> {ascii ''tabId'', ascii ''order'',
                                     ascii ''updatedAt'', ascii ''createdAt''}
                      \<longrightarrow> stored_j name = ownProps ([?e0, ?e1] ! j) name)"
    by (auto simp del: fun_upd_apply)
  have k: "ascii ''key'' \<notin> {ascii ''tabId'', ascii ''order'', ascii ''updatedAt'', ascii ''createdAt''}"
    by (simp add: ascii_def)
  from e [rule_format, of 0] k obtain s0 where
    s0: "stored ! 0 = JObject s0" "s0 (ascii ''tabId'') = Some (JString (ascii ''t1''))"
      "s0 (ascii ''order'') = Some (JNumber (Finite 0))"
      "s0 (ascii ''updatedAt'') = Some (JString (ascii ''now''))"
      "s0 (ascii ''createdAt'') = Some (JString (ascii ''2024''))"
      "s0 (ascii ''key'') = Some (JString (ascii ''a''))"
    by (auto simp: ownProps_def ascii_def)
  from e [rule_format, of 1] k obtain s1 where
    s1: "stored ! 1 = JObject s1" "s1 (ascii ''tabId'') = Some (JString (ascii ''t1''))"
      "s1 (ascii ''order'') = Some (JNumber (Finite 1))"
      "s1 (ascii ''updatedAt'') = Some (JString (ascii ''now''))"
      "s1 (ascii ''createdAt'') = Some (JString (ascii ''now''))"
      "s1 (ascii ''key'') = Some (JString (ascii ''b''))"
    by (auto simp: ownProps_def ascii_def)
  from l obtain x y where "stored = [x, y]"
    by (cases stored; cases "tl stored") auto
  with s0(1) s1(1) have st: "stored = [JObject s0, JObject s1]" by simp
  have 1: "fst ?P = \<lparr>status = 200, body = SuccessBody\<rparr>"
    by (simp only: p fst_conv)
  have 2: "map_option (\<lambda>call. (filter_tabId call, set_tabId call, set_updatedAt call, upsert call))
       (snd ?P) = Some (JString (ascii ''t1''), JString (ascii ''t1''), ascii ''date'', True)"
    by (simp only: p snd_conv) simp
  have 3: "map_option
        (\<lambda>call. map (\<lambda>v. (ownProps v (ascii ''key''), ownProps v (ascii ''tabId''),
                           ownProps v (ascii ''order''), ownProps v (ascii ''createdAt''),
                           ownProps v (ascii ''updatedAt''))) (set_inputs call))
       (snd ?P)
     = Some [(Some (JString (ascii ''a'')), Some (JString (ascii ''t1'')),
              Some (JNumber (Finite 0)), Some (JString (ascii ''2024'')),
              Some (JString (ascii ''now''))),
             (Some (JString (ascii ''b'')), Some (JString (ascii ''t1'')),
              Some (JNumber (Finite 1)), Some (JString (ascii ''now'')),
              Some (JString (ascii ''now'')))]"
    by (simp only: p snd_conv) (simp add: st ownProps_def s0 s1)
  from POST_responses [where requestJson = "Some (JArray [])" and requestBody = "JArray []"
      and now = "ascii ''now''" and nowDate = "ascii ''date''" and db = UpdateOneReturns]
  have 4: "POST (Some (JArray [])) (ascii ''now'') (ascii ''date'') UpdateOneReturns
     = (\<lparr>status = 400, body = ErrorBody (ascii ''tabId is required'')\<rparr>, None)"
    by simp
  from POST_responses [where requestJson = "Some JNull"
      and now = "ascii ''now''" and nowDate = "ascii ''date''" and db = UpdateOneReturns]
  have 5: "POST (Some JNull) (ascii ''now'') (ascii ''date'') UpdateOneReturns
     = (\<lparr>status = 500, body = ErrorBody (ascii ''Failed to save tab inputs'')\<rparr>, None)"
    by simp
  from 1 2 3 4 5 show ?thesis by blast
qed

end
